theory Spec2Isabelle
  imports Complex_Main
begin

section \<open>Numbers, vectors, strings and dates\<close>

text \<open>
  The program is \<^verbatim>\<open>src/index.mjs\<close>, the entry module of a solar-system viewer.
  A JavaScript number is an IEEE 754 double, modelled by the real it denotes; NaN and the
  infinities are outside the model. A \<^verbatim>\<open>THREE.Vector3\<close> and a three-element array are both a
  triple of reals. A \<^verbatim>\<open>Date\<close> is its time value, an integer count of milliseconds since
  1970-01-01T00:00:00 UTC; the range check of the \<^verbatim>\<open>Date\<close> constructor (an invalid date
  beyond 8.64e15 ms) is outside the model, its truncation to whole milliseconds is in it.
\<close>

type_synonym vec3 = "real \<times> real \<times> real"

type_synonym date = int

text \<open>
  Rounding. \<open>fl x\<close> is the double nearest to the real \<open>x\<close>: 53 significant bits, a tie
  going to the even significand. \<open>ulp x\<close> is the spacing of the doubles at the magnitude of
  \<open>x\<close>. The exponent is not bounded here, so overflow to an infinity and gradual underflow
  are outside the model.
\<close>

definition ulp :: "real \<Rightarrow> real" where
  "ulp x = 2 powr (of_int \<lfloor>log 2 \<bar>x\<bar>\<rfloor> - 52)"

definition roundEven :: "real \<Rightarrow> int" where
  "roundEven q =
     (let f = \<lfloor>q\<rfloor>; d = q - of_int f
      in if d < 1 / 2 then f else if 1 / 2 < d then f + 1 else if even f then f else f + 1)"

definition fl :: "real \<Rightarrow> real" where
  "fl x = (if x = 0 then 0 else of_int (roundEven (x / ulp x)) * ulp x)"

text \<open>
  The operators \<^verbatim>\<open>+\<close>, \<^verbatim>\<open>-\<close>, \<^verbatim>\<open>*\<close> and \<^verbatim>\<open>/\<close> on doubles return the double nearest to the
  exact result. The operands of a sum are doubles already, so with a zero operand the sum is
  the other operand; \<open>add_d\<close> says so directly, the model not recording otherwise which reals
  are doubles.
\<close>

definition add_d :: "real \<Rightarrow> real \<Rightarrow> real" where
  "add_d x y = (if y = 0 then x else if x = 0 then y else fl (x + y))"

definition sub_d :: "real \<Rightarrow> real \<Rightarrow> real" where
  "sub_d x y = fl (x - y)"

definition mul_d :: "real \<Rightarrow> real \<Rightarrow> real" where
  "mul_d x y = fl (x * y)"

definition div_d :: "real \<Rightarrow> real \<Rightarrow> real" where
  "div_d x y = fl (x / y)"

text \<open>
  The object \<^verbatim>\<open>Math\<close>, as far as the module uses it. \<^verbatim>\<open>Math.PI\<close> is a double close to \<open>\<pi>\<close>;
  what \<^verbatim>\<open>Math.cos\<close>, \<^verbatim>\<open>Math.sin\<close>, \<^verbatim>\<open>Math.sqrt\<close> and \<^verbatim>\<open>Math.pow\<close> return is an approximation
  that the language leaves to the platform. They are parameters of the model.
\<close>

record jsmath =
  Math_PI :: real
  Math_cos :: "real \<Rightarrow> real"
  Math_sin :: "real \<Rightarrow> real"
  Math_sqrt :: "real \<Rightarrow> real"
  Math_pow :: "real \<Rightarrow> real \<Rightarrow> real"

text \<open>\<^verbatim>\<open>const spatialScale = 5e-1;  const MU_SUN_KM3PS2 = 1.327e11;\<close>\<close>

definition spatialScale :: real where
  "spatialScale = 5 / 10"

definition MU_SUN_KM3PS2 :: real where
  "MU_SUN_KM3PS2 = 132700000000"

text \<open>
  The pattern \<^verbatim>\<open>(spatialScale * v[0], spatialScale * v[1], spatialScale * v[2])\<close> that
  \<^verbatim>\<open>buildPlanet\<close>, \<^verbatim>\<open>buildOrbitTrace\<close> and \<^verbatim>\<open>animate\<close> all apply to a vector of doubles.
  Halving a double is exact, so no rounding is written here.
\<close>

fun scaled :: "vec3 \<Rightarrow> vec3" where
  "scaled (vx, vy, vz) = (spatialScale * vx, spatialScale * vy, spatialScale * vz)"

text \<open>
  \<^verbatim>\<open>String.prototype.toLowerCase\<close> on the ASCII letters (a \<^typ>\<open>char\<close> is a byte; the
  names of the program are ASCII).
\<close>

definition lower_char :: "char \<Rightarrow> char" where
  "lower_char c =
     (let k = (of_char c :: nat) in if 65 \<le> k \<and> k \<le> 90 then char_of (k + 32) else c)"

definition toLowerCase :: "string \<Rightarrow> string" where
  "toLowerCase s = map lower_char s"

text \<open>
  \<^verbatim>\<open>new Date(v)\<close> for a number \<^verbatim>\<open>v\<close>: the time value is \<^verbatim>\<open>v\<close> truncated towards zero.
\<close>

definition newDate :: "real \<Rightarrow> date" where
  "newDate v = (if 0 \<le> v then \<lfloor>v\<rfloor> else \<lceil>v\<rceil>)"

text \<open>
  The UTC getters of \<^verbatim>\<open>Date\<close>. The time within the day is read off by floor division, as
  ECMAScript defines it; year, month and day of the month come from the day number by the
  usual conversion of a day count to a proleptic Gregorian date (400-year eras of 146097
  days, a year that starts in March). \<^verbatim>\<open>getUTCMonth\<close> counts from 0.
\<close>

definition Day :: "date \<Rightarrow> int" where
  "Day t = t div 86400000"

definition civilFromDays :: "int \<Rightarrow> int \<times> int \<times> int" where
  "civilFromDays n =
     (let z = n + 719468;
          era = z div 146097;
          doe = z mod 146097;
          yoe = (doe - doe div 1460 + doe div 36524 - doe div 146096) div 365;
          doy = doe - (365 * yoe + yoe div 4 - yoe div 100);
          mp = (5 * doy + 2) div 153;
          d = doy - (153 * mp + 2) div 5 + 1;
          m = (if mp < 10 then mp + 3 else mp - 9);
          y = yoe + era * 400 + (if m \<le> 2 then 1 else 0)
      in (y, m, d))"

definition getUTCFullYear :: "date \<Rightarrow> int" where
  "getUTCFullYear t = fst (civilFromDays (Day t))"

definition getUTCMonth :: "date \<Rightarrow> int" where
  "getUTCMonth t = fst (snd (civilFromDays (Day t))) - 1"

definition getUTCDate :: "date \<Rightarrow> int" where
  "getUTCDate t = snd (snd (civilFromDays (Day t)))"

definition getUTCHours :: "date \<Rightarrow> int" where
  "getUTCHours t = (t div 3600000) mod 24"

definition getUTCMinutes :: "date \<Rightarrow> int" where
  "getUTCMinutes t = (t div 60000) mod 60"

definition getUTCSeconds :: "date \<Rightarrow> int" where
  "getUTCSeconds t = (t div 1000) mod 60"

definition getUTCMilliseconds :: "date \<Rightarrow> int" where
  "getUTCMilliseconds t = t mod 1000"


section \<open>The imported propagation library\<close>

text \<open>
  \<^verbatim>\<open>import * as solarplanets from "solarplanets"\<close>: a package the module imports, whose
  code is not part of the repository. The six functions \<^verbatim>\<open>index.mjs\<close> calls are
  parameters of the model. The propagator \<^verbatim>\<open>getRvFromElementsDatetime\<close> receives a catalog
  entry, an object read from a data file, and may throw on it: it returns an error or the
  pair of position and velocity.
\<close>

datatype error = PropagatorError

record elements =
  a_au :: real
  da_au :: real

text \<open>
  A catalog entry: \<^verbatim>\<open>index.mjs\<close> reads its fields \<^verbatim>\<open>a_au\<close> and \<^verbatim>\<open>da_au\<close>; whatever else the
  entry holds (the extension \<^typ>\<open>'m\<close> of the record) only the propagator sees.
\<close>

type_synonym 'm entry = "'m elements_scheme"

record 'm solarplanets =
  getJ0FromDatevec :: "int \<Rightarrow> int \<Rightarrow> int \<Rightarrow> real"
  getUtFromTimevec :: "int \<Rightarrow> int \<Rightarrow> real \<Rightarrow> real"
  getJdFromDateTime :: "real \<Rightarrow> real \<Rightarrow> real"
  getJulianCenturies :: "real \<Rightarrow> real"
  getCurrentElements :: "real \<Rightarrow> real \<Rightarrow> real \<Rightarrow> real"
  getRvFromElementsDatetime :: "'m entry \<Rightarrow> date \<Rightarrow> error + (vec3 \<times> vec3)"

text \<open>
  Modelled from the spec: \<^verbatim>\<open>solarplanets.getJ0FromDatevec\<close> belongs to the imported package
  and is not under \<^verbatim>\<open>src/\<close>. The specification describes the conversion as the standard
  algorithm: the Julian day number for 0h UT of the UTC calendar date, plus the fraction of
  the day computed from hours, minutes and seconds. The standard formula for the day number
  at 0h UT, for the years 1901 to 2099, is
  \<open>367 y - \<lfloor>7 (y + \<lfloor>(m + 9) / 12\<rfloor>) / 4\<rfloor> + \<lfloor>275 m / 9\<rfloor> + d + 1721013.5\<close>.
\<close>

definition std_getJ0FromDatevec :: "int \<Rightarrow> int \<Rightarrow> int \<Rightarrow> real" where
  "std_getJ0FromDatevec y m d =
     of_int (367 * y - (7 * (y + (m + 9) div 12)) div 4 + (275 * m) div 9 + d) + 17210135 / 10"

text \<open>
  Modelled from the spec: \<^verbatim>\<open>solarplanets.getUtFromTimevec\<close> is not under \<^verbatim>\<open>src/\<close>. The
  universal time in hours, from hours, minutes and seconds.
\<close>

definition std_getUtFromTimevec :: "int \<Rightarrow> int \<Rightarrow> real \<Rightarrow> real" where
  "std_getUtFromTimevec H M S = of_int H + of_int M / 60 + S / 3600"

text \<open>
  Modelled from the spec: \<^verbatim>\<open>solarplanets.getJdFromDateTime\<close> is not under \<^verbatim>\<open>src/\<close>. The
  Julian date: the day number at 0h UT plus the fraction of the day.
\<close>

definition std_getJdFromDateTime :: "real \<Rightarrow> real \<Rightarrow> real" where
  "std_getJdFromDateTime J0 UT = J0 + UT / 24"


section \<open>Julian date of a timestamp\<close>

text \<open>
  \<^verbatim>\<open>function getJdFromDatetime(dt)\<close>: the UTC fields of the date, the month made 1-based and
  the milliseconds added to the seconds, handed to the library. The literal \<^verbatim>\<open>1e-3\<close> is the
  double nearest to one thousandth.
\<close>

definition getJdFromDatetime :: "'m solarplanets \<Rightarrow> date \<Rightarrow> real" where
  "getJdFromDatetime sp dt =
     (let y = getUTCFullYear dt;
          m = getUTCMonth dt + 1;
          d = getUTCDate dt;
          H = getUTCHours dt;
          M = getUTCMinutes dt;
          S = add_d (of_int (getUTCSeconds dt))
                (mul_d (of_int (getUTCMilliseconds dt)) (fl (1 / 1000)));
          J0 = getJ0FromDatevec sp y m d;
          UT = getUtFromTimevec sp H M S;
          JD = getJdFromDateTime sp J0 UT
      in JD)"


section \<open>Application state\<close>

text \<open>
  \<^verbatim>\<open>const planets = [...]\<close>: the eight tracked bodies. Colours are the values of the
  hexadecimal literals.
\<close>

record planet =
  name :: string
  radius_km :: real
  semiMajorAxis_km :: real
  orbitalPeriod_days :: real
  approximateColor_hex :: nat

definition planets :: "planet list" where
  "planets =
     [\<lparr>name = ''Mercury'', radius_km = 2400, semiMajorAxis_km = 57910000,
        orbitalPeriod_days = 879691 / 10000, approximateColor_hex = 6710886\<rparr>,
      \<lparr>name = ''Venus'', radius_km = 6051, semiMajorAxis_km = 108210000,
        orbitalPeriod_days = 224701 / 1000, approximateColor_hex = 11184759\<rparr>,
      \<lparr>name = ''Earth'', radius_km = 63781 / 10, semiMajorAxis_km = 149898023,
        orbitalPeriod_days = 365256 / 1000, approximateColor_hex = 3390259\<rparr>,
      \<lparr>name = ''Mars'', radius_km = 3389, semiMajorAxis_km = 227939366,
        orbitalPeriod_days = 686980 / 1000, approximateColor_hex = 12268339\<rparr>,
      \<lparr>name = ''Jupiter'', radius_km = 69911, semiMajorAxis_km = 778479000,
        orbitalPeriod_days = 433259 / 100, approximateColor_hex = 11171618\<rparr>,
      \<lparr>name = ''Saturn'', radius_km = 58232, semiMajorAxis_km = 1433530000,
        orbitalPeriod_days = 107557 / 10, approximateColor_hex = 13412949\<rparr>,
      \<lparr>name = ''Uranus'', radius_km = 25362, semiMajorAxis_km = 2870972000,
        orbitalPeriod_days = 306885 / 10, approximateColor_hex = 7829503\<rparr>,
      \<lparr>name = ''Neptune'', radius_km = 24622, semiMajorAxis_km = 4500000000,
        orbitalPeriod_days = 60195, approximateColor_hex = 4465322\<rparr>]"

text \<open>
  A node of the scene graph, as far as the module reads and writes it: its \<^verbatim>\<open>name\<close> and its
  \<^verbatim>\<open>position\<close>. The scene is the list of the children of \<^verbatim>\<open>window.app.scene\<close>, which are
  leaves (the axes helper, the Sun, and for each planet its mesh and its orbit line).
\<close>

record object3d =
  obj_name :: string
  position :: vec3

text \<open>
  \<^verbatim>\<open>window.app\<close>, with the part of the document that \<^verbatim>\<open>openDialog\<close> touches: \<open>articles\<close> maps
  a class name to the \<^verbatim>\<open>innerHTML\<close> of the first element of that class, \<open>dialogHTML\<close> is the
  \<^verbatim>\<open>innerHTML\<close> of the element \<^verbatim>\<open>.DialogContent\<close> and \<open>dialogDisplay\<close> the \<^verbatim>\<open>style.display\<close>
  of its parent. Renderer, camera, controls and raycaster belong to the graphics library;
  what the raycaster returns is an input of each frame. The module-level variable
  \<^verbatim>\<open>catalog\<close>, assigned once when the window loads, is a parameter of the functions that
  read it.
\<close>

record window =
  scene :: "object3d list"
  mouse_pos :: "real \<times> real"
  is_mouse_down :: bool
  clock :: date
  isPaused :: bool
  articles :: "string \<rightharpoonup> string"
  dialogHTML :: string
  dialogDisplay :: string

type_synonym 'm catalog = "string \<rightharpoonup> 'm entry"

text \<open>
  \<^verbatim>\<open>scene.getObjectByName(name)\<close>: the first node with that name, in order; and
  \<^verbatim>\<open>position.set\<close> on the node so found (the node is shared with the scene, so the scene
  changes).
\<close>

fun getObjectByName :: "object3d list \<Rightarrow> string \<Rightarrow> object3d option" where
  "getObjectByName [] nm = None"
| "getObjectByName (ob # obs) nm =
     (if obj_name ob = nm then Some ob else getObjectByName obs nm)"

fun positionSet :: "string \<Rightarrow> vec3 \<Rightarrow> object3d list \<Rightarrow> object3d list" where
  "positionSet nm v [] = []"
| "positionSet nm v (ob # obs) =
     (if obj_name ob = nm then ob\<lparr>position := v\<rparr> # obs else ob # positionSet nm v obs)"

definition positionOf :: "string \<Rightarrow> window \<Rightarrow> vec3 option" where
  "positionOf nm w = map_option position (getObjectByName (scene w) nm)"


section \<open>Building the scene\<close>

text \<open>
  \<^verbatim>\<open>function buildPlanet(radius, initialPosition, angularVelocity, color, name)\<close>: a mesh
  named after the planet at the scaled initial position (geometry, material and mesh scale
  are not part of \<^typ>\<open>object3d\<close>).
\<close>

definition buildPlanet :: "real \<Rightarrow> vec3 \<Rightarrow> real \<Rightarrow> nat \<Rightarrow> string \<Rightarrow> object3d" where
  "buildPlanet radius initialPosition angularVelocity color nm =
     \<lparr>obj_name = nm, position = scaled initialPosition\<rparr>"

text \<open>
  A loop that pushes one point per index and stops at the first exception.
\<close>

fun pushPoints :: "(nat \<Rightarrow> error + vec3) \<Rightarrow> nat list \<Rightarrow> error + vec3 list" where
  "pushPoints f [] = Inr []"
| "pushPoints f (i # js) =
     (case f i of
        Inl err \<Rightarrow> Inl err
      | Inr pt \<Rightarrow> (case pushPoints f js of Inl err \<Rightarrow> Inl err | Inr pts \<Rightarrow> Inr (pt # pts)))"

text \<open>
  \<^verbatim>\<open>function buildOrbitTrace(radius, name)\<close>, up to the list of points it hands to the line
  geometry. \<^verbatim>\<open>const n = 1e2\<close>; both loops run \<^verbatim>\<open>for (i = 0; i < n + 1; i += 1)\<close>. The
  function runs with \<^verbatim>\<open>window.app\<close> in scope (the argument \<open>w\<close>) and reads none of it:
  \<^verbatim>\<open>now\<close> is \<^verbatim>\<open>new Date()\<close>, the reading \<open>wall\<close> of the system clock at the call.
  The arithmetic is that of doubles, operator by operator and in the order JavaScript
  evaluates it; the functions of \<^verbatim>\<open>Math\<close> come from the argument \<open>jm\<close>.
\<close>

definition fallbackPoint :: "jsmath \<Rightarrow> real \<Rightarrow> nat \<Rightarrow> nat \<Rightarrow> vec3" where
  "fallbackPoint jm radius n i =
     (let ang_rad = div_d (mul_d (mul_d 2 (Math_PI jm)) (of_nat i)) (of_nat n)
      in (mul_d (mul_d spatialScale radius) (Math_cos jm ang_rad),
          mul_d (mul_d spatialScale radius) (Math_sin jm ang_rad),
          mul_d spatialScale 0))"

definition catalogPoint ::
  "'m solarplanets \<Rightarrow> 'm entry \<Rightarrow> date \<Rightarrow> real \<Rightarrow> nat \<Rightarrow> nat \<Rightarrow> error + vec3" where
  "catalogPoint sp ce now T_s n i =
     (let dt_s = div_d (mul_d T_s (of_nat i)) (of_nat n);
          t_dt = newDate (add_d (of_int now) (mul_d dt_s 1000))
      in case getRvFromElementsDatetime sp ce t_dt of
           Inl err \<Rightarrow> Inl err
         | Inr (rHcec_km, _) \<Rightarrow> Inr (scaled rHcec_km))"

definition buildOrbitTrace ::
  "jsmath \<Rightarrow> 'm solarplanets \<Rightarrow> 'm catalog \<Rightarrow> window \<Rightarrow> date \<Rightarrow> real \<Rightarrow> string \<Rightarrow>
     error + vec3 list" where
  "buildOrbitTrace jm sp catalog w wall radius nm =
     (let ce = catalog (toLowerCase nm);
          n = 100
      in case ce of
           None \<Rightarrow> Inr (map (fallbackPoint jm radius n) [0..<n + 1])
         | Some e \<Rightarrow>
             (let au2km = 149597871;
                  now = wall;
                  JD = getJdFromDatetime sp now;
                  T0 = getJulianCenturies sp JD;
                  a_km = getCurrentElements sp (mul_d (a_au e) au2km) (mul_d (da_au e) au2km) T0;
                  T_s = mul_d (mul_d 2 (Math_PI jm))
                          (Math_sqrt jm (div_d (Math_pow jm a_km 3) MU_SUN_KM3PS2))
              in pushPoints (catalogPoint sp e now T_s n) [0..<n + 1]))"


section \<open>Picking and the dialog\<close>

text \<open>
  \<^verbatim>\<open>function openDialog(name)\<close>: looks the article of class \<^verbatim>\<open>name.toLowerCase()\<close> up and
  returns when there is none; otherwise copies its content into the dialog and shows it.
\<close>

definition openDialog :: "string \<Rightarrow> window \<Rightarrow> window" where
  "openDialog nm w =
     (case articles w (toLowerCase nm) of
        None \<Rightarrow> w
      | Some html \<Rightarrow> w\<lparr>dialogHTML := html, dialogDisplay := ''block''\<rparr>)"

text \<open>
  \<^verbatim>\<open>function processCollision(collision)\<close>; a collision is given by the name of the object
  it hit.
\<close>

definition processCollision :: "window \<Rightarrow> string \<Rightarrow> window" where
  "processCollision w nm =
     (let names = map name planets
      in if nm \<noteq> '''' \<and> nm \<in> set names
         then (if is_mouse_down w then openDialog nm w else w)
         else w)"


section \<open>The frame callback and the event handlers\<close>

text \<open>
  The body of \<^verbatim>\<open>planets.forEach\<close> in \<^verbatim>\<open>animate\<close>, and the loop itself, which an exception
  of the propagator leaves.
\<close>

definition updatePlanet ::
  "'m solarplanets \<Rightarrow> 'm catalog \<Rightarrow> date \<Rightarrow> planet \<Rightarrow> object3d list \<Rightarrow> error + object3d list" where
  "updatePlanet sp catalog now p sc =
     (let sgn = getObjectByName sc (name p);
          ce = catalog (toLowerCase (name p))
      in case (sgn, ce) of
           (Some ob, Some e) \<Rightarrow>
             (case getRvFromElementsDatetime sp e now of
                Inl err \<Rightarrow> Inl err
              | Inr (rHcec_km, _) \<Rightarrow> Inr (positionSet (name p) (scaled rHcec_km) sc))
         | _ \<Rightarrow> Inr sc)"

fun forEachPlanet ::
  "'m solarplanets \<Rightarrow> 'm catalog \<Rightarrow> date \<Rightarrow> planet list \<Rightarrow> object3d list \<Rightarrow> error + object3d list" where
  "forEachPlanet sp catalog now [] sc = Inr sc"
| "forEachPlanet sp catalog now (p # ps) sc =
     (case updatePlanet sp catalog now p sc of
        Inl err \<Rightarrow> Inl err
      | Inr sc' \<Rightarrow> forEachPlanet sp catalog now ps sc')"

text \<open>
  \<^verbatim>\<open>function animate(time)\<close>. Inputs of a frame: \<open>wall\<close>, what \<^verbatim>\<open>new Date()\<close> returns at the
  end of the frame, and \<open>intersections\<close>, the names of the objects the raycaster reports.
  The positions are computed from \<^verbatim>\<open>window.app.clock\<close> as it is when the frame starts.
\<close>

definition animate ::
  "'m solarplanets \<Rightarrow> 'm catalog \<Rightarrow> date \<Rightarrow> string list \<Rightarrow> window \<Rightarrow> error + window" where
  "animate sp catalog wall intersections w =
     (let now = clock w
      in case forEachPlanet sp catalog now planets (scene w) of
           Inl err \<Rightarrow> Inl err
         | Inr sc \<Rightarrow>
             (let w1 = foldl processCollision (w\<lparr>scene := sc\<rparr>) intersections
              in Inr (if \<not> isPaused w1 then w1\<lparr>clock := wall\<rparr> else w1)))"

text \<open>A run of frames, each with its own inputs.\<close>

fun frames ::
  "'m solarplanets \<Rightarrow> 'm catalog \<Rightarrow> (date \<times> string list) list \<Rightarrow> window \<Rightarrow> error + window" where
  "frames sp catalog [] w = Inr w"
| "frames sp catalog ((wall, intersections) # fs) w =
     (case animate sp catalog wall intersections w of
        Inl err \<Rightarrow> Inl err
      | Inr w' \<Rightarrow> frames sp catalog fs w')"

text \<open>
  \<^verbatim>\<open>onPointerMove\<close>, \<^verbatim>\<open>onMouseDown\<close>, \<^verbatim>\<open>onMouseUp\<close>. (For a window of width or height 0 the
  division gives an infinity or NaN in JavaScript, outside the model.)
\<close>

definition onPointerMove :: "real \<Rightarrow> real \<Rightarrow> real \<Rightarrow> real \<Rightarrow> window \<Rightarrow> window" where
  "onPointerMove clientX clientY innerWidth innerHeight w =
     w\<lparr>mouse_pos := (sub_d (mul_d (div_d clientX innerWidth) 2) 1,
                     sub_d (mul_d (div_d clientY innerHeight) 2) 1)\<rparr>"

definition onMouseDown :: "window \<Rightarrow> window" where
  "onMouseDown w = w\<lparr>is_mouse_down := True\<rparr>"

definition onMouseUp :: "window \<Rightarrow> window" where
  "onMouseUp w = w\<lparr>is_mouse_down := False\<rparr>"


section \<open>Notions used in the statements\<close>

text \<open>
  What a frame leaves in the scene under a name: the node as it was, moved to the scaled
  output of the propagator when the catalog has an entry under the lower-cased name.
\<close>

definition target ::
  "'m solarplanets \<Rightarrow> 'm catalog \<Rightarrow> date \<Rightarrow> object3d list \<Rightarrow> string \<Rightarrow> object3d option" where
  "target sp catalog now sc nm =
     (case catalog (toLowerCase nm) of
        None \<Rightarrow> getObjectByName sc nm
      | Some e \<Rightarrow>
          (case getObjectByName sc nm of
             None \<Rightarrow> None
           | Some ob \<Rightarrow>
               (case getRvFromElementsDatetime sp e now of
                  Inl err \<Rightarrow> Some ob
                | Inr (r, v) \<Rightarrow> Some (ob\<lparr>position := scaled r\<rparr>))))"

text \<open>
  Notation, for the lemmas on the catalog path: the Julian date the library gives for the UTC
  calendar fields of a date; the semi-major axis in kilometres it gives for an entry at that
  epoch; the period \<open>2\<pi> \<surd>(a\<^sup>3 / \<mu>)\<close> as evaluated in doubles; and the date of sample \<open>i\<close> of
  100. These are abbreviations: a statement that uses them is the statement with the
  expressions written out, as the theorem on claim C6 is.
\<close>

abbreviation epochJD :: "'m solarplanets \<Rightarrow> date \<Rightarrow> real" where
  "epochJD sp t \<equiv>
     getJdFromDateTime sp
       (getJ0FromDatevec sp (getUTCFullYear t) (getUTCMonth t + 1) (getUTCDate t))
       (getUtFromTimevec sp (getUTCHours t) (getUTCMinutes t)
          (add_d (of_int (getUTCSeconds t))
             (mul_d (of_int (getUTCMilliseconds t)) (fl (1 / 1000)))))"

abbreviation axis_km :: "'m solarplanets \<Rightarrow> 'm entry \<Rightarrow> date \<Rightarrow> real" where
  "axis_km sp e t \<equiv>
     getCurrentElements sp (mul_d (a_au e) 149597871) (mul_d (da_au e) 149597871)
       (getJulianCenturies sp (epochJD sp t))"

abbreviation period_s :: "jsmath \<Rightarrow> 'm solarplanets \<Rightarrow> 'm entry \<Rightarrow> date \<Rightarrow> real" where
  "period_s jm sp e t \<equiv>
     mul_d (mul_d 2 (Math_PI jm))
       (Math_sqrt jm (div_d (Math_pow jm (axis_km sp e t) 3) 132700000000))"

abbreviation sampleDate ::
  "jsmath \<Rightarrow> 'm solarplanets \<Rightarrow> 'm entry \<Rightarrow> date \<Rightarrow> nat \<Rightarrow> date" where
  "sampleDate jm sp e t i \<equiv>
     newDate (add_d (of_int t) (mul_d (div_d (mul_d (period_s jm sp e t) (of_nat i)) 100) 1000))"

text \<open>A point of the plane \<open>z = 0\<close> on the circle of radius \<open>r\<close> about the origin.\<close>

definition onCircle :: "real \<Rightarrow> vec3 \<Rightarrow> bool" where
  "onCircle r pt = ((fst pt)\<^sup>2 + (fst (snd pt))\<^sup>2 = r\<^sup>2 \<and> snd (snd pt) = 0)"


section \<open>Concrete inputs\<close>

text \<open>
  A stand-in for the library, to run the model on concrete inputs: the Julian date as above,
  centuries since J2000 and a linearly drifting element as the specification gives them,
  and a propagator that puts the body on the x axis at as many kilometres as the date has
  milliseconds. A second stand-in has a propagator that always throws.
\<close>

definition stub_getJulianCenturies :: "real \<Rightarrow> real" where
  "stub_getJulianCenturies jd = (jd - 2451545) / 36525"

definition stub_getCurrentElements :: "real \<Rightarrow> real \<Rightarrow> real \<Rightarrow> real" where
  "stub_getCurrentElements x dx T = x + dx * T"

definition stub_propagator :: "elements \<Rightarrow> date \<Rightarrow> error + (vec3 \<times> vec3)" where
  "stub_propagator e t = Inr ((of_int t, 0, 0), (0, 0, 0))"

definition failing_propagator :: "elements \<Rightarrow> date \<Rightarrow> error + (vec3 \<times> vec3)" where
  "failing_propagator e t = Inl PropagatorError"

definition stub_library :: "unit solarplanets" where
  "stub_library =
     \<lparr>getJ0FromDatevec = std_getJ0FromDatevec,
      getUtFromTimevec = std_getUtFromTimevec,
      getJdFromDateTime = std_getJdFromDateTime,
      getJulianCenturies = stub_getJulianCenturies,
      getCurrentElements = stub_getCurrentElements,
      getRvFromElementsDatetime = stub_propagator\<rparr>"

definition failing_library :: "unit solarplanets" where
  "failing_library = stub_library\<lparr>getRvFromElementsDatetime := failing_propagator\<rparr>"

text \<open>
  A platform on which \<^verbatim>\<open>Math.PI\<close> is the double 3.141592653589793 and every function of
  \<^verbatim>\<open>Math\<close> returns the double nearest to the exact value (for \<^verbatim>\<open>Math.pow\<close> with a whole
  exponent, the power by repeated multiplication or division).
\<close>

definition ref_math :: jsmath where
  "ref_math =
     \<lparr>Math_PI = 884279719003555 / 281474976710656,
      Math_cos = (\<lambda>x. fl (cos x)),
      Math_sin = (\<lambda>x. fl (sin x)),
      Math_sqrt = (\<lambda>x. fl (sqrt x)),
      Math_pow = (\<lambda>x y. fl (if y = of_int \<lfloor>y\<rfloor> then x powi \<lfloor>y\<rfloor> else x powr y))\<rparr>"

text \<open>
  A catalog with the single entry \<^verbatim>\<open>mars\<close>, whose semi-major axis drifts, so that its value
  depends on the epoch.
\<close>

definition mars_entry :: elements where
  "mars_entry = \<lparr>a_au = 3 / 2, da_au = 1 / 2\<rparr>"

definition mars_catalog :: "unit catalog" where
  "mars_catalog = [''mars'' \<mapsto> mars_entry]"

text \<open>
  A catalog with the single entry \<^verbatim>\<open>earth\<close>, and a window whose scene holds the Sun, the
  mesh of the Earth where \<^verbatim>\<open>buildPlanet\<close> puts it, and an unnamed orbit line.
\<close>

definition earth_entry :: elements where
  "earth_entry = \<lparr>a_au = 1, da_au = 0\<rparr>"

definition earth_catalog :: "unit catalog" where
  "earth_catalog = [''earth'' \<mapsto> earth_entry]"

definition earth_scene :: "real \<Rightarrow> object3d list" where
  "earth_scene x =
     [\<lparr>obj_name = ''Sun'', position = (0, 0, 0)\<rparr>,
      \<lparr>obj_name = ''Earth'', position = (x, 0, 0)\<rparr>,
      \<lparr>obj_name = '''', position = (0, 0, 0)\<rparr>]"

definition earth_window :: window where
  "earth_window =
     \<lparr>scene = earth_scene (149898023 / 2),
      mouse_pos = (0, 0),
      is_mouse_down = False,
      clock = 2000,
      isPaused = False,
      articles = [''earth'' \<mapsto> ''<h2>Earth</h2>''],
      dialogHTML = '''',
      dialogDisplay = ''none''\<rparr>"


section \<open>Lemmas on rounding\<close>

lemma ulp_pos: "0 < ulp x"
  by (simp add: ulp_def)

lemma ulp_bounds:
  assumes "x \<noteq> 0"
  shows "2 ^ 52 * ulp x \<le> \<bar>x\<bar>" "\<bar>x\<bar> < 2 ^ 53 * ulp x"
proof -
  define k where "k = \<lfloor>log 2 \<bar>x\<bar>\<rfloor>"
  have pos: "0 < \<bar>x\<bar>" using assms by simp
  have b: "2 powr (of_int k) \<le> \<bar>x\<bar> \<and> \<bar>x\<bar> < 2 powr (of_int k + 1)"
    using floor_log_eq_powr_iff [of "\<bar>x\<bar>" 2 k] pos k_def by simp
  have u: "ulp x = 2 powr (of_int k) / 2 ^ 52"
    by (simp add: ulp_def k_def powr_diff)
  have s: "(2::real) powr (of_int k + 1) = 2 * 2 powr (of_int k)"
    by (simp add: powr_add)
  show "2 ^ 52 * ulp x \<le> \<bar>x\<bar>" using b u by simp
  show "\<bar>x\<bar> < 2 ^ 53 * ulp x" using b u s by simp
qed

lemma roundEven_err: "\<bar>of_int (roundEven q) - q\<bar> \<le> 1 / 2"
proof -
  have "of_int \<lfloor>q\<rfloor> \<le> q" "q < of_int \<lfloor>q\<rfloor> + 1" by simp_all
  then show ?thesis by (auto simp: roundEven_def Let_def abs_le_iff)
qed

lemma roundEven_of_int: "roundEven (of_int k) = k"
  by (simp add: roundEven_def)

lemma fl_0: "fl 0 = 0"
  by (simp add: fl_def)

lemma fl_err_ulp: "\<bar>fl x - x\<bar> \<le> ulp x / 2"
proof (cases "x = 0")
  case True
  then show ?thesis using ulp_pos [of x] by (simp add: fl_def)
next
  case False
  have "fl x - x = (of_int (roundEven (x / ulp x)) - x / ulp x) * ulp x"
    using False ulp_pos [of x] by (simp add: fl_def algebra_simps)
  then have "\<bar>fl x - x\<bar> = \<bar>of_int (roundEven (x / ulp x)) - x / ulp x\<bar> * ulp x"
    using ulp_pos [of x] by (simp add: abs_mult)
  also have "\<dots> \<le> (1 / 2) * ulp x"
    using roundEven_err [of "x / ulp x"] ulp_pos [of x] by (intro mult_right_mono) simp_all
  finally show ?thesis by simp
qed

lemma fl_err: "\<bar>fl x - x\<bar> \<le> \<bar>x\<bar> / 2 ^ 53"
proof (cases "x = 0")
  case True
  then show ?thesis by (simp add: fl_0)
next
  case False
  from ulp_bounds(1) [OF False] have "ulp x / 2 \<le> \<bar>x\<bar> / 2 ^ 53" by simp
  with fl_err_ulp [of x] show ?thesis by linarith
qed

lemma fl_lower:
  assumes "0 \<le> x"
  shows "x - x / 2 ^ 53 \<le> fl x"
proof -
  have "\<bar>fl x - x\<bar> \<le> x / 2 ^ 53" using fl_err [of x] assms by simp
  then show ?thesis by linarith
qed

lemma fl_abs_le: "\<bar>fl x\<bar> \<le> 2 * \<bar>x\<bar>"
proof -
  have "\<bar>x\<bar> / 2 ^ 53 \<le> \<bar>x\<bar>" by (simp add: divide_le_eq)
  with fl_err [of x] show ?thesis by linarith
qed

lemma fl_of_int:
  assumes "\<bar>k\<bar> < 2 ^ 53"
  shows "fl (of_int k) = of_int k"
proof (cases "k = 0")
  case True
  then show ?thesis by (simp add: fl_0)
next
  case False
  define x :: real where "x = of_int k"
  define E where "E = \<lfloor>log 2 \<bar>x\<bar>\<rfloor>"
  have x0: "x \<noteq> 0" and pos: "0 < \<bar>x\<bar>" using False by (simp_all add: x_def)
  have one: "1 \<le> \<bar>x\<bar>" using False by (simp add: x_def flip: of_int_abs)
  have lt: "\<bar>x\<bar> < 2 ^ 53"
  proof -
    have "real_of_int \<bar>k\<bar> < real_of_int (2 ^ 53)" using assms by (simp only: of_int_less_iff)
    then show ?thesis by (simp add: x_def)
  qed
  have b: "2 powr (of_int E) \<le> \<bar>x\<bar>" "\<bar>x\<bar> < 2 powr (of_int E + 1)"
    using floor_log_eq_powr_iff [of "\<bar>x\<bar>" 2 E] pos E_def by simp_all
  have E0: "0 \<le> E"
  proof (rule ccontr)
    assume "\<not> 0 \<le> E"
    then have "real_of_int E + 1 \<le> 0" by linarith
    then have "(2::real) powr (of_int E + 1) \<le> 2 powr 0" by (intro powr_mono) simp_all
    with b(2) one show False by simp
  qed
  have E52: "E \<le> 52"
  proof (rule ccontr)
    assume "\<not> E \<le> 52"
    then have "(53::real) \<le> of_int E" by linarith
    then have "(2::real) powr 53 \<le> 2 powr (of_int E)" by (intro powr_mono) simp_all
    with b(1) lt show False by simp
  qed
  define n where "n = nat (52 - E)"
  have "real_of_int E - 52 = - real n" using E52 by (simp add: n_def)
  then have u: "ulp x = 1 / 2 ^ n"
    by (simp add: ulp_def E_def [symmetric] powr_minus powr_realpow inverse_eq_divide)
  have "x / ulp x = x * 2 ^ n" by (simp add: u)
  then have q: "x / ulp x = of_int (k * 2 ^ n)" by (simp add: x_def)
  have "fl x = of_int (k * 2 ^ n) * ulp x"
    using x0 by (simp only: fl_def q roundEven_of_int if_False)
  also have "\<dots> = of_int (k * 2 ^ n) / 2 ^ n" by (simp only: u) simp
  also have "\<dots> = x" by (simp add: x_def)
  finally show ?thesis by (simp add: x_def)
qed

lemma fl_numeral: "(numeral w :: int) < 2 ^ 53 \<Longrightarrow> fl (numeral w) = numeral w"
  using fl_of_int [of "numeral w"] by simp

lemma fl_1: "fl 1 = 1"
  using fl_of_int [of 1] by simp

lemma fl_half: "fl (x / 2) = fl x / 2"
proof (cases "x = 0")
  case True
  then show ?thesis by (simp add: fl_0)
next
  case False
  have "log 2 \<bar>x / 2\<bar> = log 2 \<bar>x\<bar> - 1"
    using False by (simp add: log_divide)
  then have "\<lfloor>log 2 \<bar>x / 2\<bar>\<rfloor> = \<lfloor>log 2 \<bar>x\<bar>\<rfloor> - 1" by simp
  then have u: "ulp (x / 2) = ulp x / 2"
    by (simp add: ulp_def powr_diff)
  have "(x / 2) / ulp (x / 2) = x / ulp x" by (simp add: u)
  then show ?thesis using False by (simp add: fl_def u)
qed


section \<open>Lemmas on the scene and the frame loop\<close>

lemma lower_names:
  "toLowerCase ''Mercury'' = ''mercury''" "toLowerCase ''Venus'' = ''venus''"
  "toLowerCase ''Earth'' = ''earth''" "toLowerCase ''Mars'' = ''mars''"
  "toLowerCase ''Jupiter'' = ''jupiter''" "toLowerCase ''Saturn'' = ''saturn''"
  "toLowerCase ''Uranus'' = ''uranus''" "toLowerCase ''Neptune'' = ''neptune''"
  "toLowerCase ''Pluto'' = ''pluto''"
  by code_simp+

lemma getObjectByName_positionSet:
  "getObjectByName (positionSet nm v sc) nm' =
     (if nm' = nm then map_option (\<lambda>ob. ob\<lparr>position := v\<rparr>) (getObjectByName sc nm)
      else getObjectByName sc nm')"
  by (induction sc) auto

lemma positionSet_noop:
  "getObjectByName sc nm = Some ob \<Longrightarrow> position ob = v \<Longrightarrow> positionSet nm v sc = sc"
  by (induction sc) (auto split: if_splits)

lemma updatePlanet_lookup:
  assumes "updatePlanet sp catalog now p sc = Inr sc'"
  shows "getObjectByName sc' nm =
           (if nm = name p then target sp catalog now sc nm else getObjectByName sc nm)"
  using assms
  by (auto simp: updatePlanet_def target_def getObjectByName_positionSet
      split: option.splits sum.splits prod.splits)

lemma target_again:
  "(case target sp catalog now sc nm of
      None \<Rightarrow> None
    | Some ob \<Rightarrow>
        (case catalog (toLowerCase nm) of
           None \<Rightarrow> Some ob
         | Some e \<Rightarrow>
            (case getRvFromElementsDatetime sp e now of
               Inl err \<Rightarrow> Some ob
             | Inr (r, v) \<Rightarrow> Some (ob\<lparr>position := scaled r\<rparr>)))) =
   target sp catalog now sc nm"
  by (simp add: target_def del: scaled.simps split: option.splits sum.splits prod.splits)

lemma target_unfold:
  "target sp catalog now sc nm =
     (case getObjectByName sc nm of
      None \<Rightarrow> None
    | Some ob \<Rightarrow>
        (case catalog (toLowerCase nm) of
           None \<Rightarrow> Some ob
         | Some e \<Rightarrow>
            (case getRvFromElementsDatetime sp e now of
               Inl err \<Rightarrow> Some ob
             | Inr (r, v) \<Rightarrow> Some (ob\<lparr>position := scaled r\<rparr>))))"
  by (simp add: target_def del: scaled.simps split: option.splits sum.splits prod.splits)

lemma target_updatePlanet:
  assumes "updatePlanet sp catalog now p sc = Inr sc'"
  shows "target sp catalog now sc' nm = target sp catalog now sc nm"
proof (cases "nm = name p")
  case True
  have "getObjectByName sc' nm = target sp catalog now sc nm"
    using updatePlanet_lookup [OF assms, of nm] True by simp
  then show ?thesis
    using target_again [where sp = sp and catalog = catalog and now = now and sc = sc and nm = nm]
    by (simp only: target_unfold [where sc = sc'])
next
  case False
  have "getObjectByName sc' nm = getObjectByName sc nm"
    using updatePlanet_lookup [OF assms, of nm] False by simp
  then show ?thesis by (simp only: target_def)
qed

lemma forEachPlanet_lookup:
  "forEachPlanet sp catalog now ps sc = Inr sc' \<Longrightarrow>
   getObjectByName sc' nm =
     (if nm \<in> name ` set ps then target sp catalog now sc nm else getObjectByName sc nm)"
proof (induction ps arbitrary: sc)
  case Nil
  then show ?case by simp
next
  case (Cons p ps)
  from Cons.prems obtain sc1 where
    s1: "updatePlanet sp catalog now p sc = Inr sc1" and
    s2: "forEachPlanet sp catalog now ps sc1 = Inr sc'"
    by (auto split: sum.splits)
  from Cons.IH [OF s2] updatePlanet_lookup [OF s1] target_updatePlanet [OF s1]
  show ?case by (auto simp: target_def split: option.splits sum.splits)
qed


lemma updatePlanet_present:
  assumes "updatePlanet sp catalog now p sc = Inr sc1" "getObjectByName sc nm = Some ob"
  shows "\<exists>ob'. getObjectByName sc1 nm = Some ob'"
  using updatePlanet_lookup [OF assms(1), of nm] assms(2)
  by (auto simp: target_def simp del: scaled.simps split: option.splits sum.splits prod.splits)

lemma updatePlanet_called:
  assumes "updatePlanet sp catalog now p sc = Inr sc1" "getObjectByName sc (name p) = Some ob"
    "catalog (toLowerCase (name p)) = Some e"
  shows "\<exists>r v. getRvFromElementsDatetime sp e now = Inr (r, v)"
  using assms
  by (auto simp: updatePlanet_def simp del: scaled.simps split: sum.splits prod.splits)

lemma forEachPlanet_called:
  "forEachPlanet sp catalog now ps sc = Inr sc' \<Longrightarrow> p \<in> set ps \<Longrightarrow>
   catalog (toLowerCase (name p)) = Some e \<Longrightarrow> getObjectByName sc (name p) = Some ob \<Longrightarrow>
   \<exists>r v. getRvFromElementsDatetime sp e now = Inr (r, v)"
proof (induction ps arbitrary: sc ob)
  case Nil
  then show ?case by simp
next
  case (Cons q ps)
  from Cons.prems(1) obtain sc1 where
    s1: "updatePlanet sp catalog now q sc = Inr sc1" and
    s2: "forEachPlanet sp catalog now ps sc1 = Inr sc'"
    by (auto split: sum.splits)
  show ?case
  proof (cases "p = q")
    case True
    with s1 Cons.prems(3,4) show ?thesis by (auto dest: updatePlanet_called)
  next
    case False
    with Cons.prems(2) have "p \<in> set ps" by simp
    moreover obtain ob' where "getObjectByName sc1 (name p) = Some ob'"
      using updatePlanet_present [OF s1 Cons.prems(4)] by blast
    ultimately show ?thesis using Cons.IH [OF s2] Cons.prems(3) by blast
  qed
qed

lemma forEachPlanet_position:
  assumes "forEachPlanet sp catalog now ps sc = Inr sc'" "p \<in> set ps"
    "catalog (toLowerCase (name p)) = Some e" "getObjectByName sc (name p) = Some ob"
  shows "\<exists>r v. getRvFromElementsDatetime sp e now = Inr (r, v) \<and>
           getObjectByName sc' (name p) = Some (ob\<lparr>position := scaled r\<rparr>)"
proof -
  obtain r v where rv: "getRvFromElementsDatetime sp e now = Inr (r, v)"
    using forEachPlanet_called [OF assms] by blast
  have "getObjectByName sc' (name p) = target sp catalog now sc (name p)"
    using forEachPlanet_lookup [OF assms(1), of "name p"] assms(2) by simp
  with rv assms(3,4) have
    "getObjectByName sc' (name p) = Some (ob\<lparr>position := scaled r\<rparr>)"
    by (simp add: target_def del: scaled.simps)
  with rv show ?thesis by blast
qed

lemma forEachPlanet_untouched:
  assumes "forEachPlanet sp catalog now ps sc = Inr sc'"
    "catalog (toLowerCase nm) = None \<or> nm \<notin> name ` set ps"
  shows "getObjectByName sc' nm = getObjectByName sc nm"
  using forEachPlanet_lookup [OF assms(1), of nm] assms(2)
  by (auto simp: target_def)

lemma forEachPlanet_total:
  "(\<And>e. e \<in> ran catalog \<Longrightarrow> \<exists>rv. getRvFromElementsDatetime sp e now = Inr rv) \<Longrightarrow>
   \<exists>sc'. forEachPlanet sp catalog now ps sc = Inr sc'"
proof (induction ps arbitrary: sc)
  case Nil
  then show ?case by simp
next
  case (Cons p ps)
  have "\<exists>sc1. updatePlanet sp catalog now p sc = Inr sc1"
  proof (cases "catalog (toLowerCase (name p))")
    case None
    then show ?thesis by (simp add: updatePlanet_def split: option.splits)
  next
    case (Some e)
    then have "e \<in> ran catalog" by (auto simp: ran_def)
    then obtain rv where "getRvFromElementsDatetime sp e now = Inr rv"
      using Cons.prems by blast
    with Some show ?thesis
      by (simp add: updatePlanet_def del: scaled.simps split: option.splits prod.splits)
  qed
  then obtain sc1 where "updatePlanet sp catalog now p sc = Inr sc1" by blast
  moreover obtain sc' where "forEachPlanet sp catalog now ps sc1 = Inr sc'"
    using Cons.IH [of sc1] Cons.prems by blast
  ultimately show ?case by simp
qed

lemma updatePlanet_settled:
  assumes "forEachPlanet sp catalog now ps sc = Inr sc'" "p \<in> set ps"
  shows "updatePlanet sp catalog now p sc' = Inr sc'"
proof (cases "catalog (toLowerCase (name p))")
  case None
  then show ?thesis by (simp add: updatePlanet_def split: option.splits)
next
  case (Some e)
  show ?thesis
  proof (cases "getObjectByName sc (name p)")
    case None
    then have "getObjectByName sc' (name p) = None"
      using forEachPlanet_lookup [OF assms(1), of "name p"] by (simp add: target_def Some)
    then show ?thesis by (simp add: updatePlanet_def)
  next
    case (Some ob)
    from forEachPlanet_position [OF assms \<open>catalog (toLowerCase (name p)) = Some e\<close> Some]
    obtain r v where rv: "getRvFromElementsDatetime sp e now = Inr (r, v)" and
      g: "getObjectByName sc' (name p) = Some (ob\<lparr>position := scaled r\<rparr>)" by blast
    have "positionSet (name p) (scaled r) sc' = sc'"
      by (rule positionSet_noop [OF g]) simp
    with rv g \<open>catalog (toLowerCase (name p)) = Some e\<close> show ?thesis
      by (simp add: updatePlanet_def del: scaled.simps)
  qed
qed

lemma forEachPlanet_fixed:
  "(\<And>p. p \<in> set ps \<Longrightarrow> updatePlanet sp catalog now p sc = Inr sc) \<Longrightarrow>
   forEachPlanet sp catalog now ps sc = Inr sc"
  by (induction ps) simp_all

lemma forEachPlanet_idem:
  assumes "forEachPlanet sp catalog now ps sc = Inr sc'"
  shows "forEachPlanet sp catalog now ps sc' = Inr sc'"
  by (rule forEachPlanet_fixed) (rule updatePlanet_settled [OF assms])

lemma processCollision_keeps:
  "scene (processCollision w nm) = scene w" "clock (processCollision w nm) = clock w"
  "isPaused (processCollision w nm) = isPaused w"
  "is_mouse_down (processCollision w nm) = is_mouse_down w"
  "articles (processCollision w nm) = articles w"
  "mouse_pos (processCollision w nm) = mouse_pos w"
  by (simp_all add: processCollision_def openDialog_def Let_def split: option.splits)

lemma foldl_processCollision_keeps:
  "scene (foldl processCollision w hits) = scene w"
  "clock (foldl processCollision w hits) = clock w"
  "isPaused (foldl processCollision w hits) = isPaused w"
  "is_mouse_down (foldl processCollision w hits) = is_mouse_down w"
  "articles (foldl processCollision w hits) = articles w"
  "mouse_pos (foldl processCollision w hits) = mouse_pos w"
  by (induction hits arbitrary: w) (simp_all add: processCollision_keeps)

lemma animate_Inr:
  "animate sp catalog wall hits w = Inr w' \<longleftrightarrow>
   (\<exists>sc. forEachPlanet sp catalog (clock w) planets (scene w) = Inr sc \<and>
      w' = (if isPaused w then foldl processCollision (w\<lparr>scene := sc\<rparr>) hits
            else (foldl processCollision (w\<lparr>scene := sc\<rparr>) hits)\<lparr>clock := wall\<rparr>))"
  by (auto simp: animate_def Let_def foldl_processCollision_keeps split: sum.splits)

lemma animate_scene:
  "animate sp catalog wall hits w = Inr w' \<Longrightarrow>
   forEachPlanet sp catalog (clock w) planets (scene w) = Inr (scene w')"
  by (auto simp: animate_Inr foldl_processCollision_keeps)

lemma animate_clock:
  "animate sp catalog wall hits w = Inr w' \<Longrightarrow>
   clock w' = (if isPaused w then clock w else wall) \<and> isPaused w' = isPaused w"
  by (auto simp: animate_Inr foldl_processCollision_keeps)

lemma planet_names:
  "set (map name planets) =
     {''Mercury'', ''Venus'', ''Earth'', ''Mars'', ''Jupiter'', ''Saturn'', ''Uranus'', ''Neptune''}"
  by (simp add: planets_def)

lemma foldl_processCollision_noop:
  "\<not> is_mouse_down w \<or> set hits \<inter> set (map name planets) = {} \<Longrightarrow>
   foldl processCollision w hits = w"
proof (induction hits arbitrary: w)
  case Nil
  then show ?case by simp
next
  case (Cons h hits)
  have "processCollision w h = w"
    using Cons.prems by (auto simp: processCollision_def Let_def)
  with Cons show ?case by auto
qed

lemma stub_library_sel:
  "getRvFromElementsDatetime stub_library = stub_propagator"
  "getCurrentElements stub_library = stub_getCurrentElements"
  "getJulianCenturies stub_library = stub_getJulianCenturies"
  "getRvFromElementsDatetime failing_library = failing_propagator"
  by (simp_all add: stub_library_def failing_library_def)

lemma forEach_earth:
  "forEachPlanet stub_library earth_catalog t planets (earth_scene x) =
     Inr (earth_scene (of_int t / 2))"
  by (simp add: planets_def updatePlanet_def lower_names earth_catalog_def stub_library_sel
      stub_propagator_def spatialScale_def earth_scene_def)

lemma animate_earth:
  "animate stub_library earth_catalog 3000 [] earth_window =
     Inr (earth_window\<lparr>scene := earth_scene 1000, clock := 3000\<rparr>)"
  by (simp add: animate_def earth_window_def forEach_earth)

lemma newDate_of_int: "newDate (of_int k) = k"
  by (simp add: newDate_def)

lemma pushPoints_Inr:
  "pushPoints f js = Inr pts \<Longrightarrow>
   length pts = length js \<and> (\<forall>k<length js. f (js ! k) = Inr (pts ! k))"
proof (induction js arbitrary: pts)
  case Nil
  then show ?case by simp
next
  case (Cons j js)
  from Cons.prems obtain pt rest where
    p: "f j = Inr pt" "pushPoints f js = Inr rest" "pts = pt # rest"
    by (auto split: sum.splits)
  show ?case using Cons.IH [OF p(2)] p(1,3) by (auto simp: nth_Cons split: nat.splits)
qed

lemma pushPoints_map:
  "(\<And>i. i \<in> set js \<Longrightarrow> f i = Inr (g i)) \<Longrightarrow> pushPoints f js = Inr (map g js)"
  by (induction js) simp_all

lemma pushPoints_total:
  assumes "\<And>i. i \<in> set js \<Longrightarrow> \<exists>pt. f i = Inr pt"
  shows "\<exists>pts. pushPoints f js = Inr pts"
proof -
  have "\<And>i. i \<in> set js \<Longrightarrow> f i = Inr (projr (f i))"
    using assms by fastforce
  from pushPoints_map [of js f "\<lambda>i. projr (f i)", OF this] show ?thesis by blast
qed


section \<open>The Julian date of J2000\<close>

lemma J2000_fields:
  "getUTCFullYear 946728000000 = 2000" "getUTCMonth 946728000000 = 0"
  "getUTCDate 946728000000 = 1" "getUTCHours 946728000000 = 12"
  "getUTCMinutes 946728000000 = 0" "getUTCSeconds 946728000000 = 0"
  "getUTCMilliseconds 946728000000 = 0"
  by code_simp+

lemma std_J0_2000: "std_getJ0FromDatevec 2000 1 1 = 24515445 / 10"
  by (simp add: std_getJ0FromDatevec_def)

text \<open>
  Claim C9. The timestamp 2000-01-01T12:00:00 UTC is 946728000000 ms after the epoch of
  \<^verbatim>\<open>Date\<close> (its UTC fields are year 2000, month index 0, day 1, 12 h, 0 min, 0 s, 0 ms).
  With the Julian-date functions of the library as the specification describes them,
  \<^verbatim>\<open>getJdFromDatetime\<close> returns exactly 2451545 on it, whatever the other functions of the
  library are.
\<close>

theorem getJdFromDatetime_J2000:
  "getUTCFullYear 946728000000 = 2000 \<and> getUTCMonth 946728000000 = 0 \<and>
   getUTCDate 946728000000 = 1 \<and> getUTCHours 946728000000 = 12 \<and>
   getUTCMinutes 946728000000 = 0 \<and> getUTCSeconds 946728000000 = 0 \<and>
   getUTCMilliseconds 946728000000 = 0 \<and>
   getJdFromDatetime
     (sp\<lparr>getJ0FromDatevec := std_getJ0FromDatevec,
         getUtFromTimevec := std_getUtFromTimevec,
         getJdFromDateTime := std_getJdFromDateTime\<rparr>) 946728000000 = 2451545"
  by (simp add: getJdFromDatetime_def J2000_fields std_J0_2000 std_getUtFromTimevec_def
      std_getJdFromDateTime_def add_d_def mul_d_def fl_0)


section \<open>The per-frame update\<close>

lemma earth_planet: "planets ! 2 \<in> set planets" "name (planets ! 2) = ''Earth''"
  by (simp_all add: planets_def)

lemma earth_mesh:
  "buildPlanet (63781 / 10) (149898023, 0, 0) av 3390259 ''Earth'' =
     \<lparr>obj_name = ''Earth'', position = (149898023 / 2, 0, 0)\<rparr>"
  by (simp add: buildPlanet_def spatialScale_def)

lemma earth_lookup:
  "earth_catalog (toLowerCase ''Earth'') = Some earth_entry"
  "getObjectByName (earth_scene x) ''Earth'' = Some \<lparr>obj_name = ''Earth'', position = (x, 0, 0)\<rparr>"
  by (simp_all add: earth_catalog_def earth_scene_def lower_names)

text \<open>
  Claim C1, as amended. The position a frame publishes for a tracked body that has a catalog
  entry and a node in the scene is the output of the propagator at the clock's instant with
  every component multiplied by \<^verbatim>\<open>spatialScale\<close>, that is, halved.
\<close>

theorem published_position_is_scaled:
  assumes "animate sp catalog wall hits w = Inr w'" "p \<in> set planets"
    "catalog (toLowerCase (name p)) = Some e" "getObjectByName (scene w) (name p) = Some ob"
  shows "\<exists>rx ry rz v. getRvFromElementsDatetime sp e (clock w) = Inr ((rx, ry, rz), v) \<and>
           positionOf (name p) w' = Some (rx / 2, ry / 2, rz / 2)"
proof -
  from forEachPlanet_position [OF animate_scene [OF assms(1)] assms(2,3,4)]
  obtain r v where rv: "getRvFromElementsDatetime sp e (clock w) = Inr (r, v)" and
    g: "getObjectByName (scene w') (name p) = Some (ob\<lparr>position := scaled r\<rparr>)" by blast
  obtain rx ry rz where r: "r = (rx, ry, rz)" by (cases r) auto
  have "positionOf (name p) w' = Some (rx / 2, ry / 2, rz / 2)"
    using g r by (simp add: positionOf_def spatialScale_def)
  with rv r show ?thesis by blast
qed

theorem published_position_is_scaled_witness:
  "positionOf ''Earth'' (earth_window\<lparr>scene := earth_scene 1000, clock := 3000\<rparr>) =
     Some (2000 / 2, 0, 0)"
proof -
  have "getObjectByName (scene earth_window) (name (planets ! 2)) =
          Some \<lparr>obj_name = ''Earth'', position = (149898023 / 2, 0, 0)\<rparr>"
    by (simp add: earth_planet earth_window_def earth_lookup)
  from published_position_is_scaled [OF animate_earth earth_planet(1) _ this, of earth_entry]
  show ?thesis
    by (simp add: earth_planet earth_lookup earth_window_def stub_library_sel stub_propagator_def)
qed

text \<open>
  Claim C1 as stated fails: with a propagator output of \<open>(2000, 0, 0)\<close> km for the Earth at
  the clock's instant, the frame publishes \<open>(1000, 0, 0)\<close>.
\<close>

theorem published_position_unscaled_counterexample:
  "map_sum id (Some \<circ> fst)
     (getRvFromElementsDatetime stub_library earth_entry (clock earth_window)) =
     Inr (Some (2000, 0, 0)) \<and>
   map_sum id (positionOf ''Earth'')
     (animate stub_library earth_catalog 3000 [] earth_window) = Inr (Some (1000, 0, 0))"
proof -
  have c: "clock earth_window = 2000" by (simp add: earth_window_def)
  have "map_sum id (positionOf ''Earth'')
          (animate stub_library earth_catalog 3000 [] earth_window) = Inr (Some (1000, 0, 0))"
    by (simp add: animate_earth positionOf_def earth_lookup)
  then show ?thesis by (simp add: c stub_library_sel stub_propagator_def)
qed

text \<open>
  Claim C3. In a frame, for every tracked body: when the catalog has an entry for it, the
  propagator is called on that entry at the clock's instant and the node of the body is moved
  to the scaled result; when it has none, the node is left as it was. The frame completes
  when the propagator returns on every entry of the catalog.
\<close>

theorem frame_updates_catalogued_bodies:
  assumes "p \<in> set planets"
  shows "((\<forall>e \<in> ran catalog. \<exists>rv. getRvFromElementsDatetime sp e (clock w) = Inr rv) \<longrightarrow>
           (\<exists>w'. animate sp catalog wall hits w = Inr w')) \<and>
         (\<forall>w'. animate sp catalog wall hits w = Inr w' \<longrightarrow>
           (case catalog (toLowerCase (name p)) of
              Some e \<Rightarrow>
                (\<forall>ob. getObjectByName (scene w) (name p) = Some ob \<longrightarrow>
                  (\<exists>r v. getRvFromElementsDatetime sp e (clock w) = Inr (r, v) \<and>
                     getObjectByName (scene w') (name p) = Some (ob\<lparr>position := scaled r\<rparr>)))
            | None \<Rightarrow>
                getObjectByName (scene w') (name p) = getObjectByName (scene w) (name p)))"
proof (intro conjI impI allI)
  assume "\<forall>e \<in> ran catalog. \<exists>rv. getRvFromElementsDatetime sp e (clock w) = Inr rv"
  then obtain sc where "forEachPlanet sp catalog (clock w) planets (scene w) = Inr sc"
    using forEachPlanet_total [of catalog sp "clock w" planets "scene w"] by blast
  then show "\<exists>w'. animate sp catalog wall hits w = Inr w'"
    by (simp add: animate_Inr)
next
  fix w'
  assume a: "animate sp catalog wall hits w = Inr w'"
  note f = animate_scene [OF a]
  show "case catalog (toLowerCase (name p)) of
          Some e \<Rightarrow>
            (\<forall>ob. getObjectByName (scene w) (name p) = Some ob \<longrightarrow>
              (\<exists>r v. getRvFromElementsDatetime sp e (clock w) = Inr (r, v) \<and>
                 getObjectByName (scene w') (name p) = Some (ob\<lparr>position := scaled r\<rparr>)))
        | None \<Rightarrow> getObjectByName (scene w') (name p) = getObjectByName (scene w) (name p)"
  proof (cases "catalog (toLowerCase (name p))")
    case None
    then show ?thesis using forEachPlanet_untouched [OF f, of "name p"] by simp
  next
    case (Some e)
    then show ?thesis using forEachPlanet_position [OF f assms Some] by simp
  qed
qed

theorem frame_updates_catalogued_bodies_witness:
  "(\<exists>w'. animate stub_library earth_catalog 3000 [] earth_window = Inr w') \<and>
   getObjectByName (earth_scene 1000) ''Earth'' =
     Some \<lparr>obj_name = ''Earth'', position = scaled (2000, 0, 0)\<rparr>"
  using frame_updates_catalogued_bodies [OF earth_planet(1), of earth_catalog stub_library
      earth_window 3000 "[]"]
  by (simp add: animate_earth earth_planet earth_lookup earth_window_def stub_library_sel
      stub_propagator_def spatialScale_def)

section \<open>Pausing\<close>

lemma paused_frames_aux:
  "isPaused w1 \<Longrightarrow>
   forEachPlanet sp catalog (clock w1) planets (scene w1) = Inr (scene w1) \<Longrightarrow>
   \<exists>w'. frames sp catalog fs w1 = Inr w' \<and> clock w' = clock w1 \<and> scene w' = scene w1 \<and>
         isPaused w'"
proof (induction fs arbitrary: w1)
  case Nil
  then show ?case by simp
next
  case (Cons f fs)
  obtain wall hits where f: "f = (wall, hits)" by (cases f) auto
  let ?w2 = "foldl processCollision (w1\<lparr>scene := scene w1\<rparr>) hits"
  have a: "animate sp catalog wall hits w1 = Inr ?w2"
    using Cons.prems by (simp add: animate_Inr)
  have k: "isPaused ?w2" "clock ?w2 = clock w1" "scene ?w2 = scene w1"
    using Cons.prems(1) by (simp_all add: foldl_processCollision_keeps)
  from Cons.IH [of ?w2] k Cons.prems(2)
  obtain w' where "frames sp catalog fs ?w2 = Inr w'" "clock w' = clock w1"
    "scene w' = scene w1" "isPaused w'" by auto
  with a f show ?case by simp
qed

text \<open>
  Claim C2, as amended. While the paused flag is set the clock never moves: a frame leaves it
  where it was. From the first paused frame on, any number of further frames complete and
  leave the clock and every node of the scene, so every body position, unchanged. (The first
  paused frame itself still moves the bodies to their positions for the frozen instant.)
\<close>

theorem paused_frames_are_frozen:
  assumes "isPaused w" "animate sp catalog wall hits w = Inr w1"
  shows "clock w1 = clock w \<and>
         (\<exists>w'. frames sp catalog fs w1 = Inr w' \<and> clock w' = clock w \<and>
                scene w' = scene w1 \<and> isPaused w')"
proof -
  from animate_clock [OF assms(2)] assms(1) have c: "clock w1 = clock w" "isPaused w1"
    by simp_all
  from animate_scene [OF assms(2)]
  have "forEachPlanet sp catalog (clock w1) planets (scene w1) = Inr (scene w1)"
    using c(1) by (simp add: forEachPlanet_idem)
  from paused_frames_aux [OF c(2) this, of fs] c(1) show ?thesis by auto
qed

lemma animate_earth_paused:
  "animate stub_library earth_catalog 4000 []
     (earth_window\<lparr>scene := earth_scene 1000, clock := 3000, isPaused := True\<rparr>) =
   Inr (earth_window\<lparr>scene := earth_scene 1500, clock := 3000, isPaused := True\<rparr>)"
  by (simp add: animate_def earth_window_def forEach_earth)

theorem paused_frames_are_frozen_witness:
  "\<exists>w'. frames stub_library earth_catalog
          [(5000, []), (6000, []), (7000, []), (8000, []), (9000, []),
           (10000, []), (11000, []), (12000, []), (13000, []), (14000, [])]
          (earth_window\<lparr>scene := earth_scene 1500, clock := 3000, isPaused := True\<rparr>) = Inr w' \<and>
        clock w' = 3000 \<and> scene w' = earth_scene 1500 \<and> isPaused w'"
  using paused_frames_are_frozen [OF _ animate_earth_paused,
      of "[(5000, []), (6000, []), (7000, []), (8000, []), (9000, []),
           (10000, []), (11000, []), (12000, []), (13000, []), (14000, [])]"]
  by (simp add: earth_window_def)

text \<open>
  Claim C2 as stated fails at the first paused frame: after one running frame, with the paused
  flag then set, the next frame moves the Earth from \<open>(1000, 0, 0)\<close> to \<open>(1500, 0, 0)\<close>.
\<close>

theorem paused_frame_moves_body_counterexample:
  "animate stub_library earth_catalog 3000 [] earth_window =
     Inr (earth_window\<lparr>scene := earth_scene 1000, clock := 3000\<rparr>) \<and>
   isPaused (earth_window\<lparr>scene := earth_scene 1000, clock := 3000, isPaused := True\<rparr>) \<and>
   positionOf ''Earth'' (earth_window\<lparr>scene := earth_scene 1000, clock := 3000, isPaused := True\<rparr>) =
     Some (1000, 0, 0) \<and>
   map_sum id (positionOf ''Earth'')
     (animate stub_library earth_catalog 4000 []
        (earth_window\<lparr>scene := earth_scene 1000, clock := 3000, isPaused := True\<rparr>)) =
     Inr (Some (1500, 0, 0))"
  by (simp add: animate_earth animate_earth_paused positionOf_def earth_lookup)

section \<open>Lemmas on the orbit trace\<close>

lemma d_zero:
  "mul_d x 0 = 0" "mul_d 0 y = 0" "div_d 0 y = 0" "add_d x 0 = x" "add_d 0 y = y"
  by (simp_all add: mul_d_def div_d_def add_d_def fl_0)

lemma mul_d_err: "\<bar>mul_d x y - x * y\<bar> \<le> \<bar>x * y\<bar> / 2 ^ 53"
  unfolding mul_d_def by (rule fl_err)

lemma mul_d_half: "mul_d spatialScale x = fl x / 2"
  using fl_half [of x] by (simp add: mul_d_def spatialScale_def)

lemma cos_lipschitz: "\<bar>cos a - cos b\<bar> \<le> \<bar>a - b\<bar>" for a b :: real
proof -
  have "\<bar>cos a - cos b\<bar> = 2 * \<bar>sin ((a + b) / 2)\<bar> * \<bar>sin ((b - a) / 2)\<bar>"
    by (simp add: cos_diff_cos abs_mult)
  also have "\<dots> \<le> 2 * 1 * \<bar>(b - a) / 2\<bar>"
    by (intro mult_mono abs_sin_x_le_abs_x) simp_all
  finally show ?thesis by simp
qed

lemma sin_lipschitz: "\<bar>sin a - sin b\<bar> \<le> \<bar>a - b\<bar>" for a b :: real
proof -
  have "\<bar>sin a - sin b\<bar> = 2 * \<bar>sin ((a - b) / 2)\<bar> * \<bar>cos ((a + b) / 2)\<bar>"
    by (simp add: sin_diff_sin abs_mult)
  also have "\<dots> \<le> 2 * \<bar>(a - b) / 2\<bar> * 1"
    by (intro mult_mono abs_sin_x_le_abs_x) simp_all
  finally show ?thesis by simp
qed

text \<open>
  A product of a factor \<open>R\<close> with a library value \<open>C\<close> that is within \<open>\<epsilon>\<close> of a real \<open>c\<close>
  between -1 and 1, against the exact \<open>R c\<close>.
\<close>

lemma coordinate_err:
  assumes "\<bar>C - c\<bar> \<le> \<epsilon>" "\<bar>c\<bar> \<le> 1"
  shows "\<bar>mul_d R C - R * c\<bar> \<le> \<bar>R\<bar> * (\<epsilon> + (1 + \<epsilon>) / 2 ^ 53)"
proof -
  have e0: "0 \<le> \<epsilon>" using assms(1) by linarith
  have C: "\<bar>C\<bar> \<le> 1 + \<epsilon>" using assms by linarith
  have "\<bar>mul_d R C - R * C\<bar> \<le> \<bar>R * C\<bar> / 2 ^ 53" by (rule mul_d_err)
  also have "\<dots> = \<bar>R\<bar> * (\<bar>C\<bar> / 2 ^ 53)" by (simp add: abs_mult)
  also have "\<dots> \<le> \<bar>R\<bar> * ((1 + \<epsilon>) / 2 ^ 53)"
    using C by (intro mult_left_mono divide_right_mono) simp_all
  finally have a: "\<bar>mul_d R C - R * C\<bar> \<le> \<bar>R\<bar> * ((1 + \<epsilon>) / 2 ^ 53)" .
  have "\<bar>R * C - R * c\<bar> = \<bar>R\<bar> * \<bar>C - c\<bar>"
    by (simp add: abs_mult flip: right_diff_distrib)
  also have "\<dots> \<le> \<bar>R\<bar> * \<epsilon>" using assms(1) by (intro mult_left_mono) simp_all
  finally have b: "\<bar>R * C - R * c\<bar> \<le> \<bar>R\<bar> * \<epsilon>" .
  have "\<bar>mul_d R C - R * c\<bar> \<le> \<bar>mul_d R C - R * C\<bar> + \<bar>R * C - R * c\<bar>" by linarith
  also have "\<dots> \<le> \<bar>R\<bar> * ((1 + \<epsilon>) / 2 ^ 53) + \<bar>R\<bar> * \<epsilon>" using a b by linarith
  finally show ?thesis by (simp add: algebra_simps)
qed

text \<open>The angle of the last fallback sample, against \<open>2\<pi>\<close>.\<close>

lemma closing_angle_err:
  assumes "\<bar>P\<bar> \<le> 4" "\<bar>P - pi\<bar> \<le> d"
  shows "\<bar>div_d (mul_d (mul_d 2 P) 100) 100 - 2 * pi\<bar> \<le> 56 / 2 ^ 53 + 2 * d"
proof -
  define A1 where "A1 = fl (2 * P)"
  define A2 where "A2 = fl (A1 * 100)"
  define th where "th = fl (A2 / 100)"
  have th: "div_d (mul_d (mul_d 2 P) 100) 100 = th"
    by (simp add: th_def A2_def A1_def mul_d_def div_d_def)
  have p8: "\<bar>2 * P\<bar> \<le> 8" using assms(1) by simp
  have e1: "\<bar>A1 - 2 * P\<bar> \<le> 8 / 2 ^ 53"
  proof -
    have "\<bar>A1 - 2 * P\<bar> \<le> \<bar>2 * P\<bar> / 2 ^ 53" unfolding A1_def by (rule fl_err)
    also have "\<dots> \<le> 8 / 2 ^ 53" using p8 by (intro divide_right_mono) simp_all
    finally show ?thesis .
  qed
  have a1: "\<bar>A1\<bar> \<le> 16" using fl_abs_le [of "2 * P"] p8 by (simp add: A1_def)
  have e2: "\<bar>A2 - A1 * 100\<bar> \<le> 1600 / 2 ^ 53"
  proof -
    have "\<bar>A2 - A1 * 100\<bar> \<le> \<bar>A1 * 100\<bar> / 2 ^ 53" unfolding A2_def by (rule fl_err)
    also have "\<dots> \<le> 1600 / 2 ^ 53" using a1 by (intro divide_right_mono) (simp_all add: abs_mult)
    finally show ?thesis .
  qed
  have a2: "\<bar>A2\<bar> \<le> 3200" using fl_abs_le [of "A1 * 100"] a1 by (simp add: A2_def abs_mult)
  have e3: "\<bar>th - A2 / 100\<bar> \<le> 32 / 2 ^ 53"
  proof -
    have "\<bar>th - A2 / 100\<bar> \<le> \<bar>A2 / 100\<bar> / 2 ^ 53" unfolding th_def by (rule fl_err)
    also have "\<dots> \<le> 32 / 2 ^ 53" using a2 by (intro divide_right_mono) simp_all
    finally show ?thesis .
  qed
  have e2': "\<bar>A2 / 100 - A1\<bar> \<le> 16 / 2 ^ 53"
  proof -
    have "\<bar>A2 / 100 - A1\<bar> = \<bar>A2 - A1 * 100\<bar> / 100" by (simp add: field_simps)
    also have "\<dots> \<le> (1600 / 2 ^ 53) / 100" using e2 by (intro divide_right_mono) simp_all
    finally show ?thesis by simp
  qed
  have s1: "\<bar>th - A1\<bar> \<le> 48 / 2 ^ 53" using e3 e2' by linarith
  have s2: "\<bar>A1 - 2 * pi\<bar> \<le> 8 / 2 ^ 53 + 2 * d" using e1 assms(2) by linarith
  have "\<bar>th - 2 * pi\<bar> \<le> 56 / 2 ^ 53 + 2 * d" using s1 s2 by linarith
  then show ?thesis unfolding th by simp
qed

lemma hd_last_map_upt:
  "hd (map g [0..<101]) = g 0" "last (map g [0..<101]) = g 100"
  by (simp_all add: hd_map last_map)

lemma pluto_lookup: "earth_catalog (toLowerCase ''Pluto'') = None"
  by (simp add: earth_catalog_def lower_names)

lemma buildOrbitTrace_None:
  "catalog (toLowerCase nm) = None \<Longrightarrow>
   buildOrbitTrace jm sp catalog w wall radius nm =
     Inr (map (fallbackPoint jm radius 100) [0..<101])"
  by (simp add: buildOrbitTrace_def)

lemma buildOrbitTrace_Some:
  "catalog (toLowerCase nm) = Some e \<Longrightarrow>
   buildOrbitTrace jm sp catalog w wall radius nm =
     pushPoints (catalogPoint sp e wall (period_s jm sp e wall) 100) [0..<101]"
  by (simp add: buildOrbitTrace_def getJdFromDatetime_def MU_SUN_KM3PS2_def Let_def)

lemma catalogPoint_Inr:
  "catalogPoint sp e now T 100 i = Inr pt \<longleftrightarrow>
   (\<exists>r v. getRvFromElementsDatetime sp e
            (newDate (add_d (of_int now) (mul_d (div_d (mul_d T (of_nat i)) 100) 1000))) =
            Inr (r, v) \<and>
          pt = scaled r)"
  by (auto simp: catalogPoint_def Let_def simp del: scaled.simps split: sum.splits prod.splits)

lemma buildOrbitTrace_Some_nth:
  assumes "catalog (toLowerCase nm) = Some e"
    "buildOrbitTrace jm sp catalog w wall radius nm = Inr pts" "i \<le> 100"
  shows "length pts = 101 \<and>
     (\<exists>r v. getRvFromElementsDatetime sp e (sampleDate jm sp e wall i) = Inr (r, v) \<and>
        pts ! i = scaled r)"
proof -
  let ?T = "period_s jm sp e wall"
  have pp: "pushPoints (catalogPoint sp e wall ?T 100) [0..<101] = Inr pts"
    using assms(1,2) by (simp only: buildOrbitTrace_Some)
  from pushPoints_Inr [OF pp] have len: "length pts = 101" and
    nth: "\<forall>k<101. catalogPoint sp e wall ?T 100 ([0..<101] ! k) = Inr (pts ! k)"
    by simp_all
  from assms(3) have "i < 101" by simp
  with nth have "catalogPoint sp e wall ?T 100 ([0..<101] ! i) = Inr (pts ! i)" by blast
  moreover have "[0..<101] ! i = i" using \<open>i < 101\<close> by simp
  ultimately have "catalogPoint sp e wall ?T 100 i = Inr (pts ! i)" by simp
  then show ?thesis using len by (simp only: catalogPoint_Inr)
qed

lemma sampleDate_0: "sampleDate jm sp e t 0 = t"
  by (simp add: d_zero newDate_of_int)

lemma fl_ge_half:
  assumes "0 \<le> c" "c \<le> x"
  shows "c / 2 \<le> fl x"
proof -
  have x0: "0 \<le> x" using assms by linarith
  have "x / 2 ^ 53 \<le> x / 2" using x0 by (intro divide_left_mono) simp_all
  with fl_lower [OF x0] assms show ?thesis by linarith
qed

lemma ref_math_sel:
  "Math_PI ref_math = 884279719003555 / 281474976710656"
  "Math_cos ref_math x = fl (cos x)" "Math_sin ref_math x = fl (sin x)"
  "Math_sqrt ref_math x = fl (sqrt x)" "Math_pow ref_math x 3 = fl (x ^ 3)"
  by (simp_all add: ref_math_def power_int_def)

lemma ref_period_ge:
  assumes "149597871 \<le> a"
  shows "3 \<le> mul_d (mul_d 2 (Math_PI ref_math))
                (Math_sqrt ref_math (div_d (Math_pow ref_math a 3) 132700000000))"
proof -
  have a0: "0 \<le> a" using assms by linarith
  have "(149597871::real) ^ 3 \<le> a ^ 3" using assms by (intro power_mono) simp_all
  then have c: "(128 * 132700000000::real) \<le> a ^ 3" by simp
  have p: "64 * 132700000000 \<le> fl (a ^ 3)"
    using fl_ge_half [of "128 * 132700000000" "a ^ 3"] c by simp
  have "64 \<le> fl (a ^ 3) / 132700000000" using p by simp
  then have q: "32 \<le> div_d (fl (a ^ 3)) 132700000000"
    using fl_ge_half [of 64 "fl (a ^ 3) / 132700000000"] by (simp add: div_d_def)
  have "sqrt 16 \<le> sqrt (div_d (fl (a ^ 3)) 132700000000)"
    using q by (intro real_sqrt_le_mono) linarith
  moreover have "sqrt 16 = 4" using real_sqrt_abs [of 4] by simp
  ultimately have "4 \<le> sqrt (div_d (fl (a ^ 3)) 132700000000)" by simp
  then have s: "2 \<le> fl (sqrt (div_d (fl (a ^ 3)) 132700000000))"
    using fl_ge_half [of 4 "sqrt (div_d (fl (a ^ 3)) 132700000000)"] by simp
  have A: "3 \<le> mul_d 2 (884279719003555 / 281474976710656)"
    using fl_ge_half [of 6 "2 * (884279719003555 / 281474976710656)"] by (simp add: mul_d_def)
  have "3 * 2 \<le> mul_d 2 (884279719003555 / 281474976710656) *
      fl (sqrt (div_d (fl (a ^ 3)) 132700000000))"
    using A s by (intro mult_mono) simp_all
  then show ?thesis
    using fl_ge_half [of 6 "mul_d 2 (884279719003555 / 281474976710656) *
      fl (sqrt (div_d (fl (a ^ 3)) 132700000000))"]
    by (simp add: ref_math_sel mul_d_def [of "mul_d 2 (884279719003555 / 281474976710656)"])
qed

lemma sample_after_start:
  assumes "3 \<le> T" "4 \<le> i" "0 \<le> t" "t < 2 ^ 53"
  shows "t + 1 \<le> newDate (add_d (of_int t) (mul_d (div_d (mul_d T (of_nat i)) 100) 1000))"
proof -
  define dt where "dt = mul_d (div_d (mul_d T (of_nat i)) 100) 1000"
  have "(4::real) \<le> of_nat i" using assms(2) by simp
  then have "3 * 4 \<le> T * of_nat i" using assms(1) by (intro mult_mono) simp_all
  then have m1: "6 \<le> mul_d T (of_nat i)"
    using fl_ge_half [of 12 "T * of_nat i"] by (simp add: mul_d_def)
  then have "6 / 100 \<le> mul_d T (of_nat i) / 100" by simp
  then have m2: "3 / 100 \<le> div_d (mul_d T (of_nat i)) 100"
    using fl_ge_half [of "6 / 100" "mul_d T (of_nat i) / 100"] by (simp add: div_d_def)
  then have "30 \<le> div_d (mul_d T (of_nat i)) 100 * 1000" by simp
  then have dt15: "15 \<le> dt"
    using fl_ge_half [of 30 "div_d (mul_d T (of_nat i)) 100 * 1000"]
    by (simp add: dt_def mul_d_def [of "div_d (mul_d T (of_nat i)) 100"])
  have t0: "(0::real) \<le> of_int t" using assms(3) by simp
  have tb: "real_of_int t \<le> 2 ^ 53"
  proof -
    have "real_of_int t \<le> real_of_int (2 ^ 53)" using assms(4) by (simp only: of_int_le_iff)
    then show ?thesis by simp
  qed
  have ge: "of_int t + 1 \<le> add_d (of_int t) dt"
  proof (cases "t = 0")
    case True
    then show ?thesis using dt15 by (simp add: add_d_def)
  next
    case False
    have s0: "0 \<le> of_int t + dt" using t0 dt15 by linarith
    have "(of_int t + dt) / 2 ^ 53 = of_int t / 2 ^ 53 + dt / 2 ^ 53"
      by (simp add: add_divide_distrib)
    moreover have "real_of_int t / 2 ^ 53 \<le> 1" using tb by simp
    moreover have "dt / 2 ^ 53 \<le> dt / 2" using dt15 by (intro divide_left_mono) simp_all
    ultimately have "(of_int t + dt) / 2 ^ 53 \<le> 1 + dt / 2" by linarith
    with fl_lower [OF s0] dt15 have "of_int t + 1 \<le> fl (of_int t + dt)" by linarith
    then show ?thesis using False dt15 by (simp add: add_d_def)
  qed
  then have "0 \<le> add_d (of_int t) dt" using t0 by linarith
  then have "newDate (add_d (of_int t) dt) = \<lfloor>add_d (of_int t) dt\<rfloor>"
    by (simp add: newDate_def)
  moreover have "t + 1 \<le> \<lfloor>add_d (of_int t) dt\<rfloor>"
    using ge by (simp add: le_floor_iff)
  ultimately show ?thesis by (simp add: dt_def)
qed

lemma stub_trace:
  fixes catalog :: "unit catalog"
  assumes "catalog (toLowerCase nm) = Some e"
  shows "buildOrbitTrace jm stub_library catalog w wall radius nm =
     Inr (map (\<lambda>i. scaled (of_int (sampleDate jm stub_library e wall i), 0, 0)) [0..<101])"
proof -
  have "pushPoints (catalogPoint stub_library e wall (period_s jm stub_library e wall) 100)
          [0..<101] =
        Inr (map (\<lambda>i. scaled (of_int (sampleDate jm stub_library e wall i), 0, 0)) [0..<101])"
    by (rule pushPoints_map)
       (simp add: catalogPoint_def stub_library_sel stub_propagator_def del: scaled.simps)
  then show ?thesis using assms by (simp only: buildOrbitTrace_Some)
qed

lemma earth_axis: "axis_km stub_library earth_entry t = 149597871"
  by (simp add: stub_library_sel stub_getCurrentElements_def earth_entry_def mul_d_def fl_0
      fl_numeral)

lemma date_2050_fields:
  "getUTCFullYear 2524608000000 = 2050" "getUTCMonth 2524608000000 = 0"
  "getUTCDate 2524608000000 = 1" "getUTCHours 2524608000000 = 0"
  "getUTCMinutes 2524608000000 = 0" "getUTCSeconds 2524608000000 = 0"
  "getUTCMilliseconds 2524608000000 = 0"
  by code_simp+

lemma stub_epoch_2050: "epochJD stub_library 2524608000000 = 4939615 / 2"
  by (simp add: date_2050_fields stub_library_def std_getJ0FromDatevec_def
      std_getUtFromTimevec_def std_getJdFromDateTime_def d_zero)

lemma mars_axis: "axis_km stub_library mars_entry 2524608000000 = 1047185097 / 4"
proof -
  have "mul_d (3 / 2) 149597871 = 448793613 / 2"
    using fl_half [of 448793613] by (simp add: mul_d_def fl_numeral)
  moreover have "mul_d (1 / 2) 149597871 = 149597871 / 2"
    using fl_half [of 149597871] by (simp add: mul_d_def fl_numeral)
  ultimately show ?thesis
    by (simp add: stub_epoch_2050 stub_library_sel stub_getCurrentElements_def
        stub_getJulianCenturies_def mars_entry_def)
qed

lemma mars_lookup: "mars_catalog (toLowerCase ''Mars'') = Some mars_entry"
  by (simp add: mars_catalog_def lower_names)

section \<open>Orbit traces\<close>

lemma fallbackPoint_first:
  "fallbackPoint jm radius 100 0 =
     (mul_d (mul_d spatialScale radius) (Math_cos jm 0),
      mul_d (mul_d spatialScale radius) (Math_sin jm 0), 0)"
  by (simp add: fallbackPoint_def d_zero)

lemma fallbackPoint_nth:
  "fallbackPoint jm radius 100 i =
     (mul_d (mul_d spatialScale radius)
        (Math_cos jm (div_d (mul_d (mul_d 2 (Math_PI jm)) (of_nat i)) 100)),
      mul_d (mul_d spatialScale radius)
        (Math_sin jm (div_d (mul_d (mul_d 2 (Math_PI jm)) (of_nat i)) 100)), 0)"
  by (simp add: fallbackPoint_def d_zero Let_def)

lemma circle_point: "onCircle R (R * cos t, R * sin t, 0)"
proof -
  have "(R * cos t)\<^sup>2 + (R * sin t)\<^sup>2 = R\<^sup>2 * ((cos t)\<^sup>2 + (sin t)\<^sup>2)"
    by (simp only: power_mult_distrib distrib_left)
  then show ?thesis by (simp add: onCircle_def)
qed

lemma scaled_diff:
  fixes R a b c :: real
  assumes "\<bar>a - b\<bar> \<le> c"
  shows "\<bar>R * a - R * b\<bar> \<le> \<bar>R\<bar> * c"
proof -
  have "\<bar>R * a - R * b\<bar> = \<bar>R\<bar> * \<bar>a - b\<bar>"
    by (simp add: abs_mult flip: right_diff_distrib)
  also have "\<dots> \<le> \<bar>R\<bar> * c" using assms by (intro mult_left_mono) simp_all
  finally show ?thesis .
qed

text \<open>
  The two ends of the fallback trace, coordinate by coordinate, when the library is accurate
  to \<open>\<epsilon>\<close> and \<^verbatim>\<open>Math.PI\<close> to \<open>d\<close>.
\<close>

lemma fallback_closure:
  fixes jm :: jsmath and radius \<epsilon> d :: real
  assumes acc: "\<forall>t. \<bar>Math_cos jm t - cos t\<bar> \<le> \<epsilon> \<and> \<bar>Math_sin jm t - sin t\<bar> \<le> \<epsilon>"
    and P: "\<bar>Math_PI jm\<bar> \<le> 4" "\<bar>Math_PI jm - pi\<bar> \<le> d"
  defines "R \<equiv> mul_d spatialScale radius"
  defines "tol \<equiv> 2 * \<epsilon> + 2 * (1 + \<epsilon>) / 2 ^ 53 + 56 / 2 ^ 53 + 2 * d"
  shows "\<bar>fst (fallbackPoint jm radius 100 100) - fst (fallbackPoint jm radius 100 0)\<bar>
           \<le> \<bar>R\<bar> * tol"
    and "\<bar>fst (snd (fallbackPoint jm radius 100 100)) - fst (snd (fallbackPoint jm radius 100 0))\<bar>
           \<le> \<bar>R\<bar> * tol"
proof -
  define th where "th = div_d (mul_d (mul_d 2 (Math_PI jm)) 100) 100"
  define k where "k = \<epsilon> + (1 + \<epsilon>) / 2 ^ 53"
  have ang: "\<bar>th - 2 * pi\<bar> \<le> 56 / 2 ^ 53 + 2 * d"
    unfolding th_def by (rule closing_angle_err [OF P])
  have ac: "\<bar>Math_cos jm t - cos t\<bar> \<le> \<epsilon>" and as: "\<bar>Math_sin jm t - sin t\<bar> \<le> \<epsilon>" for t
    using acc by blast+
  have c1: "\<bar>mul_d R (Math_cos jm th) - R * cos th\<bar> \<le> \<bar>R\<bar> * k"
    unfolding k_def by (rule coordinate_err [OF ac]) simp
  have c0: "\<bar>mul_d R (Math_cos jm 0) - R * cos 0\<bar> \<le> \<bar>R\<bar> * k"
    unfolding k_def by (rule coordinate_err [OF ac]) simp
  have s1: "\<bar>mul_d R (Math_sin jm th) - R * sin th\<bar> \<le> \<bar>R\<bar> * k"
    unfolding k_def by (rule coordinate_err [OF as]) simp
  have s0: "\<bar>mul_d R (Math_sin jm 0) - R * sin 0\<bar> \<le> \<bar>R\<bar> * k"
    unfolding k_def by (rule coordinate_err [OF as]) simp
  have "\<bar>cos th - cos (2 * pi)\<bar> \<le> \<bar>th - 2 * pi\<bar>" by (rule cos_lipschitz)
  then have "\<bar>cos th - cos 0\<bar> \<le> 56 / 2 ^ 53 + 2 * d" using ang by simp
  then have cd: "\<bar>R * cos th - R * cos 0\<bar> \<le> \<bar>R\<bar> * (56 / 2 ^ 53 + 2 * d)"
    by (rule scaled_diff)
  have "\<bar>sin th - sin (2 * pi)\<bar> \<le> \<bar>th - 2 * pi\<bar>" by (rule sin_lipschitz)
  then have "\<bar>sin th - sin 0\<bar> \<le> 56 / 2 ^ 53 + 2 * d" using ang by simp
  then have sd: "\<bar>R * sin th - R * sin 0\<bar> \<le> \<bar>R\<bar> * (56 / 2 ^ 53 + 2 * d)"
    by (rule scaled_diff)
  have t: "\<bar>R\<bar> * tol = \<bar>R\<bar> * k + \<bar>R\<bar> * k + \<bar>R\<bar> * (56 / 2 ^ 53 + 2 * d)"
    by (simp add: tol_def k_def algebra_simps)
  have "\<bar>mul_d R (Math_cos jm th) - mul_d R (Math_cos jm 0)\<bar> \<le> \<bar>R\<bar> * tol"
    unfolding t using c1 c0 cd by linarith
  then show "\<bar>fst (fallbackPoint jm radius 100 100) - fst (fallbackPoint jm radius 100 0)\<bar>
           \<le> \<bar>R\<bar> * tol"
    by (simp add: fallbackPoint_nth [of jm radius 100] fallbackPoint_first th_def R_def)
  have "\<bar>mul_d R (Math_sin jm th) - mul_d R (Math_sin jm 0)\<bar> \<le> \<bar>R\<bar> * tol"
    unfolding t using s1 s0 sd by linarith
  then show "\<bar>fst (snd (fallbackPoint jm radius 100 100)) -
      fst (snd (fallbackPoint jm radius 100 0))\<bar> \<le> \<bar>R\<bar> * tol"
    by (simp add: fallbackPoint_nth [of jm radius 100] fallbackPoint_first th_def R_def)
qed

text \<open>
  The double 3.141592653589793 against \<open>\<pi>\<close>, by Machin's formula and the partial sums of the
  series of the arc tangent, which alternate about its value.
\<close>

lemma arctan_partial_bounds:
  fixes x :: real
  assumes "0 \<le> x" "x \<le> 1"
  shows "(\<Sum>i<2 * n. (- 1) ^ i * (1 / real (i * 2 + 1) * x ^ (i * 2 + 1))) \<le> arctan x"
    and "arctan x \<le> (\<Sum>i<2 * n + 1. (- 1) ^ i * (1 / real (i * 2 + 1) * x ^ (i * 2 + 1)))"
proof -
  let ?a = "\<lambda>n. 1 / real (n * 2 + 1) * x ^ (n * 2 + 1)"
  have abs: "\<bar>x\<bar> \<le> 1" using assms by simp
  have z: "?a \<longlonglongrightarrow> 0" by (rule zeroseq_arctan_series [OF abs])
  have p: "0 \<le> ?a k" for k using assms by simp
  have m: "?a (Suc k) \<le> ?a k" for k
  proof -
    have "x ^ (Suc k * 2 + 1) \<le> x ^ (k * 2 + 1)"
      using assms by (intro power_decreasing) simp_all
    moreover have "1 / real (Suc k * 2 + 1) \<le> 1 / real (k * 2 + 1)"
      by (intro divide_left_mono) simp_all
    ultimately show ?thesis
      using assms by (intro mult_mono) simp_all
  qed
  note L = summable_Leibniz' [of ?a, OF z p m]
  have s: "arctan x = (\<Sum>k. (- 1) ^ k * ?a k)" by (rule arctan_series [OF abs])
  show "(\<Sum>i<2 * n. (- 1) ^ i * ?a i) \<le> arctan x" unfolding s by (rule L(2))
  show "arctan x \<le> (\<Sum>i<2 * n + 1. (- 1) ^ i * ?a i)" unfolding s by (rule L(4))
qed

lemma pi_double:
  "884279719003555 / 281474976710656 \<le> pi"
  "pi \<le> 884279719003555 / 281474976710656 + 1 / 2 ^ 52"
proof -
  have m: "pi = 16 * arctan (1 / 5) - 4 * arctan (1 / 239)" using machin by simp
  note a = arctan_partial_bounds [of "1 / 5" 6]
  note b = arctan_partial_bounds [of "1 / 239" 2]
  have lo5: "(\<Sum>i<12. (- 1) ^ i * (1 / real (i * 2 + 1) * (1 / 5) ^ (i * 2 + 1))) \<le> arctan (1 / 5)"
    using a(1) by simp
  have hi5: "arctan (1 / 5) \<le> (\<Sum>i<13. (- 1) ^ i * (1 / real (i * 2 + 1) * (1 / 5) ^ (i * 2 + 1)))"
    using a(2) by simp
  have lo239: "(\<Sum>i<4. (- 1) ^ i * (1 / real (i * 2 + 1) * (1 / 239) ^ (i * 2 + 1))) \<le> arctan (1 / 239)"
    using b(1) by simp
  have hi239: "arctan (1 / 239) \<le> (\<Sum>i<5. (- 1) ^ i * (1 / real (i * 2 + 1) * (1 / 239) ^ (i * 2 + 1)))"
    using b(2) by simp
  have L: "884279719003555 / 281474976710656 \<le>
      16 * (\<Sum>i<12. (- 1) ^ i * (1 / real (i * 2 + 1) * (1 / 5) ^ (i * 2 + 1))) -
      4 * (\<Sum>i<5. (- 1) ^ i * (1 / real (i * 2 + 1) * (1 / 239) ^ (i * 2 + 1)))"
    by (simp add: eval_nat_numeral)
  have U: "16 * (\<Sum>i<13. (- 1) ^ i * (1 / real (i * 2 + 1) * (1 / 5) ^ (i * 2 + 1))) -
      4 * (\<Sum>i<4. (- 1) ^ i * (1 / real (i * 2 + 1) * (1 / 239) ^ (i * 2 + 1)))
      \<le> 884279719003555 / 281474976710656 + 1 / 2 ^ 52"
    by (simp add: eval_nat_numeral)
  show "884279719003555 / 281474976710656 \<le> pi" unfolding m using L lo5 hi239 by linarith
  show "pi \<le> 884279719003555 / 281474976710656 + 1 / 2 ^ 52" unfolding m using U hi5 lo239 by linarith
qed

lemma ref_accuracy:
  "(\<forall>t. \<bar>Math_cos ref_math t - cos t\<bar> \<le> 1 / 2 ^ 53 \<and>
        \<bar>Math_sin ref_math t - sin t\<bar> \<le> 1 / 2 ^ 53) \<and>
   \<bar>Math_PI ref_math\<bar> \<le> 4 \<and> \<bar>Math_PI ref_math - pi\<bar> \<le> 1 / 2 ^ 52"
proof (intro allI conjI)
  fix t :: real
  have "\<bar>fl (cos t) - cos t\<bar> \<le> \<bar>cos t\<bar> / 2 ^ 53" by (rule fl_err)
  also have "\<dots> \<le> 1 / 2 ^ 53" by (intro divide_right_mono) simp_all
  finally show "\<bar>Math_cos ref_math t - cos t\<bar> \<le> 1 / 2 ^ 53" by (simp add: ref_math_sel)
  have "\<bar>fl (sin t) - sin t\<bar> \<le> \<bar>sin t\<bar> / 2 ^ 53" by (rule fl_err)
  also have "\<dots> \<le> 1 / 2 ^ 53" by (intro divide_right_mono) simp_all
  finally show "\<bar>Math_sin ref_math t - sin t\<bar> \<le> 1 / 2 ^ 53" by (simp add: ref_math_sel)
next
  show "\<bar>Math_PI ref_math\<bar> \<le> 4" by (simp add: ref_math_sel)
  show "\<bar>Math_PI ref_math - pi\<bar> \<le> 1 / 2 ^ 52"
    unfolding ref_math_sel using pi_double by linarith
qed

lemma ref_radius_2: "mul_d spatialScale 2 = 1"
  by (simp add: mul_d_def spatialScale_def fl_1)

lemma ref_first_point: "fallbackPoint ref_math 2 100 0 = (1, 0, 0)"
  by (simp add: fallbackPoint_first ref_radius_2 ref_math_sel fl_1 fl_0 d_zero)
     (simp add: mul_d_def fl_1)

lemma newDate_numeral: "newDate (numeral k) = numeral k"
  using newDate_of_int [of "numeral k"] by simp

lemma earth_trace:
  "buildOrbitTrace jm stub_library earth_catalog w wall radius ''Earth'' =
     Inr (map (\<lambda>i. scaled (of_int (sampleDate jm stub_library earth_entry wall i), 0, 0))
            [0..<101])"
  by (rule stub_trace [where catalog = earth_catalog and nm = "''Earth''", OF earth_lookup(1)])

lemma earth_sample_after:
  "5001 \<le> sampleDate ref_math stub_library earth_entry 5000 100"
  using sample_after_start [OF ref_period_ge [of "axis_km stub_library earth_entry 5000"],
      of 100 5000]
  by (simp add: earth_axis)

text \<open>
  Claim C4, as amended. The sampler has no point-count parameter: \<open>n\<close> is the constant 100,
  and a trace that is returned has exactly 101 points. On the fallback path the first and the
  last point both have \<open>z = 0\<close> and coincide within floating-point tolerance: when
  \<^verbatim>\<open>Math.cos\<close> and \<^verbatim>\<open>Math.sin\<close> are accurate to \<open>\<epsilon>\<close> and \<^verbatim>\<open>Math.PI\<close> to \<open>d\<close>, their \<open>x\<close> and
  their \<open>y\<close> differ by at most \<open>\<bar>R\<bar> (2\<epsilon> + 2 (1 + \<epsilon>) / 2\<^sup>5\<^sup>3 + 56 / 2\<^sup>5\<^sup>3 + 2 d)\<close>, \<open>R\<close> being
  the scaled radius. On the catalog path the last point is not a copy of the first: it is the
  scaled output of one more call of the propagator, at the date of sample 100 (the
  expression of the theorem on claim C6 at \<open>i = 100\<close>), one period after the start.
\<close>

theorem orbit_trace_has_101_points:
  "(\<forall>pts. buildOrbitTrace jm sp catalog w wall radius nm = Inr pts \<longrightarrow> length pts = 101) \<and>
   (catalog (toLowerCase nm) = None \<longrightarrow>
      (\<exists>pts. buildOrbitTrace jm sp catalog w wall radius nm = Inr pts \<and> length pts = 101 \<and>
         snd (snd (hd pts)) = 0 \<and> snd (snd (last pts)) = 0 \<and>
         (\<forall>\<epsilon> d.
            (\<forall>t. \<bar>Math_cos jm t - cos t\<bar> \<le> \<epsilon> \<and> \<bar>Math_sin jm t - sin t\<bar> \<le> \<epsilon>) \<and>
            \<bar>Math_PI jm\<bar> \<le> 4 \<and> \<bar>Math_PI jm - pi\<bar> \<le> d \<longrightarrow>
            \<bar>fst (last pts) - fst (hd pts)\<bar>
              \<le> \<bar>mul_d spatialScale radius\<bar> *
                  (2 * \<epsilon> + 2 * (1 + \<epsilon>) / 2 ^ 53 + 56 / 2 ^ 53 + 2 * d) \<and>
            \<bar>fst (snd (last pts)) - fst (snd (hd pts))\<bar>
              \<le> \<bar>mul_d spatialScale radius\<bar> *
                  (2 * \<epsilon> + 2 * (1 + \<epsilon>) / 2 ^ 53 + 56 / 2 ^ 53 + 2 * d)))) \<and>
   (\<forall>e pts. catalog (toLowerCase nm) = Some e \<and>
        buildOrbitTrace jm sp catalog w wall radius nm = Inr pts \<longrightarrow>
      (\<exists>r v. getRvFromElementsDatetime sp e (sampleDate jm sp e wall 100) = Inr (r, v) \<and>
              last pts = scaled r))"
proof (intro conjI allI impI)
  fix pts
  assume b: "buildOrbitTrace jm sp catalog w wall radius nm = Inr pts"
  show "length pts = 101"
  proof (cases "catalog (toLowerCase nm)")
    case None
    from b have "pts = map (fallbackPoint jm radius 100) [0..<101]"
      by (simp only: buildOrbitTrace_None None sum.inject)
    then show ?thesis by simp
  next
    case (Some e)
    from buildOrbitTrace_Some_nth [where catalog = catalog and nm = nm, OF Some b, of 0]
    show ?thesis by simp
  qed
next
  assume n: "catalog (toLowerCase nm) = None"
  let ?pts = "map (fallbackPoint jm radius 100) [0..<101]"
  have h: "hd ?pts = fallbackPoint jm radius 100 0" "last ?pts = fallbackPoint jm radius 100 100"
    by (simp_all only: hd_last_map_upt)
  have z: "snd (snd (hd ?pts)) = 0" "snd (snd (last ?pts)) = 0"
    unfolding h by (simp_all add: fallbackPoint_nth)
  have c: "\<forall>\<epsilon> d.
            (\<forall>t. \<bar>Math_cos jm t - cos t\<bar> \<le> \<epsilon> \<and> \<bar>Math_sin jm t - sin t\<bar> \<le> \<epsilon>) \<and>
            \<bar>Math_PI jm\<bar> \<le> 4 \<and> \<bar>Math_PI jm - pi\<bar> \<le> d \<longrightarrow>
            \<bar>fst (last ?pts) - fst (hd ?pts)\<bar>
              \<le> \<bar>mul_d spatialScale radius\<bar> *
                  (2 * \<epsilon> + 2 * (1 + \<epsilon>) / 2 ^ 53 + 56 / 2 ^ 53 + 2 * d) \<and>
            \<bar>fst (snd (last ?pts)) - fst (snd (hd ?pts))\<bar>
              \<le> \<bar>mul_d spatialScale radius\<bar> *
                  (2 * \<epsilon> + 2 * (1 + \<epsilon>) / 2 ^ 53 + 56 / 2 ^ 53 + 2 * d)"
    unfolding h using fallback_closure [of jm _ _ radius] by blast
  have "length ?pts = 101" by simp
  with z c show "\<exists>pts. buildOrbitTrace jm sp catalog w wall radius nm = Inr pts \<and>
      length pts = 101 \<and> snd (snd (hd pts)) = 0 \<and> snd (snd (last pts)) = 0 \<and>
         (\<forall>\<epsilon> d.
            (\<forall>t. \<bar>Math_cos jm t - cos t\<bar> \<le> \<epsilon> \<and> \<bar>Math_sin jm t - sin t\<bar> \<le> \<epsilon>) \<and>
            \<bar>Math_PI jm\<bar> \<le> 4 \<and> \<bar>Math_PI jm - pi\<bar> \<le> d \<longrightarrow>
            \<bar>fst (last pts) - fst (hd pts)\<bar>
              \<le> \<bar>mul_d spatialScale radius\<bar> *
                  (2 * \<epsilon> + 2 * (1 + \<epsilon>) / 2 ^ 53 + 56 / 2 ^ 53 + 2 * d) \<and>
            \<bar>fst (snd (last pts)) - fst (snd (hd pts))\<bar>
              \<le> \<bar>mul_d spatialScale radius\<bar> *
                  (2 * \<epsilon> + 2 * (1 + \<epsilon>) / 2 ^ 53 + 56 / 2 ^ 53 + 2 * d))"
    unfolding buildOrbitTrace_None [where catalog = catalog and nm = nm, OF n] by blast
next
  fix e pts
  assume a: "catalog (toLowerCase nm) = Some e \<and>
    buildOrbitTrace jm sp catalog w wall radius nm = Inr pts"
  from buildOrbitTrace_Some_nth [where catalog = catalog and nm = nm,
      OF conjunct1 [OF a] conjunct2 [OF a], of 100]
  obtain r v where len: "length pts = 101" and
    rv: "getRvFromElementsDatetime sp e (sampleDate jm sp e wall 100) = Inr (r, v)" and
    p: "pts ! 100 = scaled r"
    by auto
  from len have "pts \<noteq> []" by auto
  then have "last pts = pts ! 100" using len by (simp add: last_conv_nth)
  with p have "last pts = scaled r" by simp
  with rv show "\<exists>r v. getRvFromElementsDatetime sp e (sampleDate jm sp e wall 100) = Inr (r, v) \<and>
      last pts = scaled r"
    by blast
qed

theorem orbit_trace_has_101_points_witness:
  "(\<exists>pts. buildOrbitTrace ref_math failing_library earth_catalog earth_window 5000 2 ''Pluto'' =
            Inr pts \<and>
          length pts = 101 \<and> hd pts = (1, 0, 0) \<and> snd (snd (last pts)) = 0 \<and>
          \<bar>fst (last pts) - 1\<bar> \<le> 65 / 2 ^ 53 \<and> \<bar>fst (snd (last pts))\<bar> \<le> 65 / 2 ^ 53) \<and>
   (\<exists>pts. buildOrbitTrace ref_math stub_library earth_catalog earth_window 5000 2 ''Earth'' =
            Inr pts \<and>
          length pts = 101 \<and>
          last pts = scaled (of_int (sampleDate ref_math stub_library earth_entry 5000 100), 0, 0))"
proof -
  note a = orbit_trace_has_101_points [of ref_math failing_library earth_catalog earth_window
      5000 2 "''Pluto''"]
  note c = orbit_trace_has_101_points [of ref_math stub_library earth_catalog earth_window
      5000 2 "''Earth''"]
  have A: "\<exists>pts. buildOrbitTrace ref_math failing_library earth_catalog earth_window 5000 2
      ''Pluto'' = Inr pts \<and> length pts = 101 \<and> hd pts = (1, 0, 0) \<and> snd (snd (last pts)) = 0 \<and>
      \<bar>fst (last pts) - 1\<bar> \<le> 65 / 2 ^ 53 \<and> \<bar>fst (snd (last pts))\<bar> \<le> 65 / 2 ^ 53"
  proof -
    from conjunct1 [OF conjunct2 [OF a]] pluto_lookup obtain pts where
      p: "buildOrbitTrace ref_math failing_library earth_catalog earth_window 5000 2 ''Pluto'' =
        Inr pts" "length pts = 101" "snd (snd (last pts)) = 0" and
      q: "\<forall>\<epsilon> d.
            (\<forall>t. \<bar>Math_cos ref_math t - cos t\<bar> \<le> \<epsilon> \<and> \<bar>Math_sin ref_math t - sin t\<bar> \<le> \<epsilon>) \<and>
            \<bar>Math_PI ref_math\<bar> \<le> 4 \<and> \<bar>Math_PI ref_math - pi\<bar> \<le> d \<longrightarrow>
            \<bar>fst (last pts) - fst (hd pts)\<bar>
              \<le> \<bar>mul_d spatialScale 2\<bar> *
                  (2 * \<epsilon> + 2 * (1 + \<epsilon>) / 2 ^ 53 + 56 / 2 ^ 53 + 2 * d) \<and>
            \<bar>fst (snd (last pts)) - fst (snd (hd pts))\<bar>
              \<le> \<bar>mul_d spatialScale 2\<bar> *
                  (2 * \<epsilon> + 2 * (1 + \<epsilon>) / 2 ^ 53 + 56 / 2 ^ 53 + 2 * d)"
      by blast
    from p(1) have "pts = map (fallbackPoint ref_math 2 100) [0..<101]"
      by (simp only: buildOrbitTrace_None pluto_lookup sum.inject)
    then have h: "hd pts = (1, 0, 0)" by (simp only: hd_last_map_upt ref_first_point)
    have "(2 * (1 / 2 ^ 53) + 2 * (1 + 1 / 2 ^ 53) / 2 ^ 53 + 56 / 2 ^ 53 + 2 * (1 / 2 ^ 52) :: real)
        \<le> 65 / 2 ^ 53"
      by simp
    with q [rule_format, OF ref_accuracy] have
      "\<bar>fst (last pts) - 1\<bar> \<le> 65 / 2 ^ 53 \<and> \<bar>fst (snd (last pts))\<bar> \<le> 65 / 2 ^ 53"
      unfolding ref_radius_2 h by simp
    with p h show ?thesis by blast
  qed
  have C: "\<exists>pts. buildOrbitTrace ref_math stub_library earth_catalog earth_window 5000 2
      ''Earth'' = Inr pts \<and> length pts = 101 \<and>
      last pts = scaled (of_int (sampleDate ref_math stub_library earth_entry 5000 100), 0, 0)"
  proof -
    obtain pts where
      p: "buildOrbitTrace ref_math stub_library earth_catalog earth_window 5000 2 ''Earth'' =
        Inr pts"
      using earth_trace by blast
    from conjunct1 [OF c] p have len: "length pts = 101" by blast
    from conjunct2 [OF conjunct2 [OF c]] p earth_lookup(1) obtain r v where
      "getRvFromElementsDatetime stub_library earth_entry
         (sampleDate ref_math stub_library earth_entry 5000 100) = Inr (r, v)"
      "last pts = scaled r"
      by blast
    then have "last pts =
        scaled (of_int (sampleDate ref_math stub_library earth_entry 5000 100), 0, 0)"
      by (auto simp add: stub_library_sel stub_propagator_def simp del: scaled.simps)
    with p len show ?thesis by blast
  qed
  from A C show ?thesis by blast
qed

text \<open>
  Claim C4 as stated fails on the catalog path: with a propagator whose output depends on the
  date, the first point is \<open>(2500, 0, 0)\<close> and the last one is another point.
\<close>

theorem orbit_trace_not_closed_counterexample:
  "map_sum id hd
     (buildOrbitTrace ref_math stub_library earth_catalog earth_window 5000 2 ''Earth'') =
     Inr (2500, 0, 0) \<and>
   map_sum id last
     (buildOrbitTrace ref_math stub_library earth_catalog earth_window 5000 2 ''Earth'') \<noteq>
     Inr (2500, 0, 0)"
proof -
  have "real_of_int (sampleDate ref_math stub_library earth_entry 5000 100) \<noteq> 5000"
    using earth_sample_after by linarith
  then have l: "scaled (of_int (sampleDate ref_math stub_library earth_entry 5000 100), 0, 0) \<noteq>
      (2500, 0, 0)"
    by (simp add: spatialScale_def)
  have f: "scaled (of_int (sampleDate ref_math stub_library earth_entry 5000 0), 0, 0) =
      (2500, 0, 0)"
    by (simp add: d_zero newDate_numeral spatialScale_def)
  show ?thesis
    unfolding earth_trace using l f
    by (simp only: map_sum.simps id_apply hd_last_map_upt sum.inject simp_thms)
qed

text \<open>The angle of fallback sample \<open>i\<close>, against \<open>2\<pi>i / 100\<close>.\<close>

lemma angle_err:
  assumes "\<bar>P\<bar> \<le> 4" "\<bar>P - pi\<bar> \<le> d" "i \<le> 100"
  shows "\<bar>div_d (mul_d (mul_d 2 P) (of_nat i)) 100 - 2 * pi * of_nat i / 100\<bar>
           \<le> 56 / 2 ^ 53 + 2 * d"
proof -
  define A1 where "A1 = fl (2 * P)"
  define A2 where "A2 = fl (A1 * of_nat i)"
  define th where "th = fl (A2 / 100)"
  define c :: real where "c = of_nat i / 100"
  have th: "div_d (mul_d (mul_d 2 P) (of_nat i)) 100 = th"
    by (simp add: th_def A2_def A1_def mul_d_def div_d_def)
  have i0: "(0::real) \<le> of_nat i" and i100: "real i \<le> 100" using assms(3) by simp_all
  have c: "0 \<le> c" "c \<le> 1" using i100 by (simp_all add: c_def)
  have d0: "0 \<le> d" using assms(2) by linarith
  have p8: "\<bar>2 * P\<bar> \<le> 8" using assms(1) by simp
  have e1: "\<bar>A1 - 2 * P\<bar> \<le> 8 / 2 ^ 53"
  proof -
    have "\<bar>A1 - 2 * P\<bar> \<le> \<bar>2 * P\<bar> / 2 ^ 53" unfolding A1_def by (rule fl_err)
    also have "\<dots> \<le> 8 / 2 ^ 53" using p8 by (intro divide_right_mono) simp_all
    finally show ?thesis .
  qed
  have a1: "\<bar>A1\<bar> \<le> 16" using fl_abs_le [of "2 * P"] p8 by (simp add: A1_def)
  have a1i: "\<bar>A1 * of_nat i\<bar> \<le> 1600"
  proof -
    have "\<bar>A1 * of_nat i\<bar> = \<bar>A1\<bar> * real i" by (simp add: abs_mult)
    also have "\<dots> \<le> 16 * 100" using a1 i100 by (intro mult_mono) simp_all
    finally show ?thesis by simp
  qed
  have e2: "\<bar>A2 - A1 * of_nat i\<bar> \<le> 1600 / 2 ^ 53"
  proof -
    have "\<bar>A2 - A1 * of_nat i\<bar> \<le> \<bar>A1 * of_nat i\<bar> / 2 ^ 53" unfolding A2_def by (rule fl_err)
    also have "\<dots> \<le> 1600 / 2 ^ 53" using a1i by (intro divide_right_mono) simp_all
    finally show ?thesis .
  qed
  have a2: "\<bar>A2\<bar> \<le> 3200" using fl_abs_le [of "A1 * of_nat i"] a1i by (simp add: A2_def)
  have e3: "\<bar>th - A2 / 100\<bar> \<le> 32 / 2 ^ 53"
  proof -
    have "\<bar>th - A2 / 100\<bar> \<le> \<bar>A2 / 100\<bar> / 2 ^ 53" unfolding th_def by (rule fl_err)
    also have "\<dots> \<le> 32 / 2 ^ 53" using a2 by (intro divide_right_mono) simp_all
    finally show ?thesis .
  qed
  have e2': "\<bar>A2 / 100 - A1 * c\<bar> \<le> 16 / 2 ^ 53"
  proof -
    have "\<bar>A2 / 100 - A1 * c\<bar> = \<bar>A2 - A1 * of_nat i\<bar> / 100"
      by (simp add: c_def field_simps)
    also have "\<dots> \<le> (1600 / 2 ^ 53) / 100" using e2 by (intro divide_right_mono) simp_all
    finally show ?thesis by simp
  qed
  have s2: "\<bar>A1 - 2 * pi\<bar> \<le> 8 / 2 ^ 53 + 2 * d" using e1 assms(2) by linarith
  have e4: "\<bar>A1 * c - 2 * pi * c\<bar> \<le> 8 / 2 ^ 53 + 2 * d"
  proof -
    have "\<bar>A1 * c - 2 * pi * c\<bar> = \<bar>A1 - 2 * pi\<bar> * c"
      using c(1) by (simp add: abs_mult flip: left_diff_distrib)
    also have "\<dots> \<le> (8 / 2 ^ 53 + 2 * d) * 1"
      using s2 c by (intro mult_mono) simp_all
    finally show ?thesis by simp
  qed
  have s1: "\<bar>th - A1 * c\<bar> \<le> 48 / 2 ^ 53" using e3 e2' by linarith
  have "\<bar>th - 2 * pi * c\<bar> \<le> 56 / 2 ^ 53 + 2 * d" using s1 e4 by linarith
  then show ?thesis unfolding th by (simp add: c_def)
qed

text \<open>
  Point \<open>i\<close> of the fallback trace, coordinate by coordinate, against the point at the angle
  \<open>2\<pi>i / 100\<close> of the circle whose radius is the scaled radius.
\<close>

lemma fallback_point_err:
  fixes jm :: jsmath and radius \<epsilon> d :: real
  assumes acc: "\<forall>t. \<bar>Math_cos jm t - cos t\<bar> \<le> \<epsilon> \<and> \<bar>Math_sin jm t - sin t\<bar> \<le> \<epsilon>"
    and P: "\<bar>Math_PI jm\<bar> \<le> 4" "\<bar>Math_PI jm - pi\<bar> \<le> d" and i: "i \<le> 100"
  defines "R \<equiv> mul_d spatialScale radius"
  defines "tol \<equiv> \<epsilon> + (1 + \<epsilon>) / 2 ^ 53 + 56 / 2 ^ 53 + 2 * d"
  shows "\<bar>fst (fallbackPoint jm radius 100 i) - R * cos (2 * pi * of_nat i / 100)\<bar> \<le> \<bar>R\<bar> * tol"
    and "\<bar>fst (snd (fallbackPoint jm radius 100 i)) - R * sin (2 * pi * of_nat i / 100)\<bar>
           \<le> \<bar>R\<bar> * tol"
proof -
  define th where "th = div_d (mul_d (mul_d 2 (Math_PI jm)) (of_nat i)) 100"
  define k where "k = \<epsilon> + (1 + \<epsilon>) / 2 ^ 53"
  define a :: real where "a = 2 * pi * of_nat i / 100"
  have ang: "\<bar>th - a\<bar> \<le> 56 / 2 ^ 53 + 2 * d"
    unfolding th_def a_def by (rule angle_err [OF P i])
  have ac: "\<bar>Math_cos jm t - cos t\<bar> \<le> \<epsilon>" and as: "\<bar>Math_sin jm t - sin t\<bar> \<le> \<epsilon>" for t
    using acc by blast+
  have c1: "\<bar>mul_d R (Math_cos jm th) - R * cos th\<bar> \<le> \<bar>R\<bar> * k"
    unfolding k_def by (rule coordinate_err [OF ac]) simp
  have s1: "\<bar>mul_d R (Math_sin jm th) - R * sin th\<bar> \<le> \<bar>R\<bar> * k"
    unfolding k_def by (rule coordinate_err [OF as]) simp
  have "\<bar>cos th - cos a\<bar> \<le> \<bar>th - a\<bar>" by (rule cos_lipschitz)
  then have "\<bar>cos th - cos a\<bar> \<le> 56 / 2 ^ 53 + 2 * d" using ang by linarith
  then have cd: "\<bar>R * cos th - R * cos a\<bar> \<le> \<bar>R\<bar> * (56 / 2 ^ 53 + 2 * d)"
    by (rule scaled_diff)
  have "\<bar>sin th - sin a\<bar> \<le> \<bar>th - a\<bar>" by (rule sin_lipschitz)
  then have "\<bar>sin th - sin a\<bar> \<le> 56 / 2 ^ 53 + 2 * d" using ang by linarith
  then have sd: "\<bar>R * sin th - R * sin a\<bar> \<le> \<bar>R\<bar> * (56 / 2 ^ 53 + 2 * d)"
    by (rule scaled_diff)
  have t: "\<bar>R\<bar> * tol = \<bar>R\<bar> * k + \<bar>R\<bar> * (56 / 2 ^ 53 + 2 * d)"
    by (simp add: tol_def k_def algebra_simps)
  have "\<bar>mul_d R (Math_cos jm th) - R * cos a\<bar> \<le> \<bar>R\<bar> * tol"
    unfolding t using c1 cd by linarith
  then show "\<bar>fst (fallbackPoint jm radius 100 i) - R * cos (2 * pi * of_nat i / 100)\<bar>
      \<le> \<bar>R\<bar> * tol"
    by (simp add: fallbackPoint_nth th_def R_def a_def)
  have "\<bar>mul_d R (Math_sin jm th) - R * sin a\<bar> \<le> \<bar>R\<bar> * tol"
    unfolding t using s1 sd by linarith
  then show "\<bar>fst (snd (fallbackPoint jm radius 100 i)) - R * sin (2 * pi * of_nat i / 100)\<bar>
      \<le> \<bar>R\<bar> * tol"
    by (simp add: fallbackPoint_nth th_def R_def a_def)
qed

text \<open>
  Claim C5, as amended. For a name without a catalog entry the trace has 101 points, in the
  plane \<open>z = 0\<close> exactly. Point \<open>i\<close> is computed in double arithmetic: with \<open>R\<close> the rounded
  product of \<^verbatim>\<open>spatialScale\<close> and the reference radius, and \<open>\<theta>\<close> the rounded angle
  \<^verbatim>\<open>2 * Math.PI * i / n\<close>, its coordinates are the rounded products of \<open>R\<close> with
  \<^verbatim>\<open>Math.cos\<close> and \<^verbatim>\<open>Math.sin\<close> of \<open>\<theta>\<close>. It lies on the circle of radius \<open>R\<close> about the origin up
  to rounding: when \<^verbatim>\<open>Math.cos\<close> and \<^verbatim>\<open>Math.sin\<close> are accurate to \<open>\<epsilon>\<close> and \<^verbatim>\<open>Math.PI\<close> to \<open>d\<close>,
  each coordinate is within \<open>\<bar>R\<bar> (\<epsilon> + (1 + \<epsilon>) / 2\<^sup>5\<^sup>3 + 56 / 2\<^sup>5\<^sup>3 + 2 d)\<close> of the point of that
  circle at the angle \<open>2\<pi>i / 100\<close>. For a radius that is a double, \<open>R\<close> is exactly half the
  radius: the circle is the one of the scaled radius, not of the reference radius.
\<close>

theorem fallback_trace_near_scaled_circle:
  assumes "catalog (toLowerCase nm) = None"
  shows "\<exists>pts. buildOrbitTrace jm sp catalog w wall radius nm = Inr pts \<and> length pts = 101 \<and>
           (\<forall>i<101.
              let R = mul_d spatialScale radius;
                  \<theta> = div_d (mul_d (mul_d 2 (Math_PI jm)) (of_nat i)) 100
              in pts ! i = (mul_d R (Math_cos jm \<theta>), mul_d R (Math_sin jm \<theta>), 0) \<and>
                 onCircle R (R * cos (2 * pi * of_nat i / 100),
                             R * sin (2 * pi * of_nat i / 100), 0) \<and>
                 (\<forall>\<epsilon> d.
                    (\<forall>t. \<bar>Math_cos jm t - cos t\<bar> \<le> \<epsilon> \<and> \<bar>Math_sin jm t - sin t\<bar> \<le> \<epsilon>) \<and>
                    \<bar>Math_PI jm\<bar> \<le> 4 \<and> \<bar>Math_PI jm - pi\<bar> \<le> d \<longrightarrow>
                    \<bar>fst (pts ! i) - R * cos (2 * pi * of_nat i / 100)\<bar>
                      \<le> \<bar>R\<bar> * (\<epsilon> + (1 + \<epsilon>) / 2 ^ 53 + 56 / 2 ^ 53 + 2 * d) \<and>
                    \<bar>fst (snd (pts ! i)) - R * sin (2 * pi * of_nat i / 100)\<bar>
                      \<le> \<bar>R\<bar> * (\<epsilon> + (1 + \<epsilon>) / 2 ^ 53 + 56 / 2 ^ 53 + 2 * d))) \<and>
           (fl radius = radius \<longrightarrow> mul_d spatialScale radius = spatialScale * radius)"
proof -
  let ?pts = "map (fallbackPoint jm radius 100) [0..<101]"
  have nth: "?pts ! i = fallbackPoint jm radius 100 i" if "i < 101" for i
    using that by (simp del: upt_Suc)
  have pt: "\<forall>i<101.
              let R = mul_d spatialScale radius;
                  \<theta> = div_d (mul_d (mul_d 2 (Math_PI jm)) (of_nat i)) 100
              in ?pts ! i = (mul_d R (Math_cos jm \<theta>), mul_d R (Math_sin jm \<theta>), 0) \<and>
                 onCircle R (R * cos (2 * pi * of_nat i / 100),
                             R * sin (2 * pi * of_nat i / 100), 0) \<and>
                 (\<forall>\<epsilon> d.
                    (\<forall>t. \<bar>Math_cos jm t - cos t\<bar> \<le> \<epsilon> \<and> \<bar>Math_sin jm t - sin t\<bar> \<le> \<epsilon>) \<and>
                    \<bar>Math_PI jm\<bar> \<le> 4 \<and> \<bar>Math_PI jm - pi\<bar> \<le> d \<longrightarrow>
                    \<bar>fst (?pts ! i) - R * cos (2 * pi * of_nat i / 100)\<bar>
                      \<le> \<bar>R\<bar> * (\<epsilon> + (1 + \<epsilon>) / 2 ^ 53 + 56 / 2 ^ 53 + 2 * d) \<and>
                    \<bar>fst (snd (?pts ! i)) - R * sin (2 * pi * of_nat i / 100)\<bar>
                      \<le> \<bar>R\<bar> * (\<epsilon> + (1 + \<epsilon>) / 2 ^ 53 + 56 / 2 ^ 53 + 2 * d))"
    unfolding Let_def
  proof (intro allI impI conjI)
    fix i :: nat
    assume i: "i < 101"
    show "?pts ! i =
        (mul_d (mul_d spatialScale radius)
           (Math_cos jm (div_d (mul_d (mul_d 2 (Math_PI jm)) (of_nat i)) 100)),
         mul_d (mul_d spatialScale radius)
           (Math_sin jm (div_d (mul_d (mul_d 2 (Math_PI jm)) (of_nat i)) 100)), 0)"
      by (simp only: nth [OF i] fallbackPoint_nth)
    show "onCircle (mul_d spatialScale radius)
        (mul_d spatialScale radius * cos (2 * pi * of_nat i / 100),
         mul_d spatialScale radius * sin (2 * pi * of_nat i / 100), 0)"
      by (rule circle_point)
  next
    fix i :: nat and \<epsilon> d :: real
    assume i: "i < 101"
    assume h: "(\<forall>t. \<bar>Math_cos jm t - cos t\<bar> \<le> \<epsilon> \<and> \<bar>Math_sin jm t - sin t\<bar> \<le> \<epsilon>) \<and>
        \<bar>Math_PI jm\<bar> \<le> 4 \<and> \<bar>Math_PI jm - pi\<bar> \<le> d"
    from i have i': "i \<le> 100" by simp
    note e = fallback_point_err [OF conjunct1 [OF h] conjunct1 [OF conjunct2 [OF h]]
        conjunct2 [OF conjunct2 [OF h]] i', of radius]
    show "\<bar>fst (?pts ! i) - mul_d spatialScale radius * cos (2 * pi * of_nat i / 100)\<bar>
        \<le> \<bar>mul_d spatialScale radius\<bar> * (\<epsilon> + (1 + \<epsilon>) / 2 ^ 53 + 56 / 2 ^ 53 + 2 * d)"
      unfolding nth [OF i] by (rule e(1))
    show "\<bar>fst (snd (?pts ! i)) - mul_d spatialScale radius * sin (2 * pi * of_nat i / 100)\<bar>
        \<le> \<bar>mul_d spatialScale radius\<bar> * (\<epsilon> + (1 + \<epsilon>) / 2 ^ 53 + 56 / 2 ^ 53 + 2 * d)"
      unfolding nth [OF i] by (rule e(2))
  qed
  have len: "length ?pts = 101" by simp
  have half: "fl radius = radius \<longrightarrow> mul_d spatialScale radius = spatialScale * radius"
  proof
    assume "fl radius = radius"
    with mul_d_half [of radius] show "mul_d spatialScale radius = spatialScale * radius"
      by (simp add: spatialScale_def)
  qed
  from len pt half show ?thesis
    unfolding buildOrbitTrace_None [where catalog = catalog and nm = nm, OF assms] by blast
qed

theorem fallback_trace_near_scaled_circle_witness:
  "(\<exists>pts. buildOrbitTrace ref_math failing_library earth_catalog earth_window 5000 2 ''Pluto'' =
            Inr pts \<and>
          length pts = 101 \<and> pts ! 0 = (1, 0, 0) \<and> snd (snd (pts ! 50)) = 0 \<and>
          \<bar>fst (pts ! 50) + 1\<bar> \<le> 63 / 2 ^ 53 \<and> \<bar>fst (snd (pts ! 50))\<bar> \<le> 63 / 2 ^ 53) \<and>
   mul_d spatialScale 2 = spatialScale * 2"
proof -
  note a = fallback_trace_near_scaled_circle [where catalog = earth_catalog and
      nm = "''Pluto''" and jm = ref_math and sp = failing_library and w = earth_window and
      wall = 5000 and radius = 2, OF pluto_lookup, unfolded Let_def]
  have n0: "(0::nat) < 101" and n50: "(50::nat) < 101" by simp_all
  have A: "\<exists>pts. buildOrbitTrace ref_math failing_library earth_catalog earth_window 5000 2
      ''Pluto'' = Inr pts \<and> length pts = 101 \<and> pts ! 0 = (1, 0, 0) \<and> snd (snd (pts ! 50)) = 0 \<and>
      \<bar>fst (pts ! 50) + 1\<bar> \<le> 63 / 2 ^ 53 \<and> \<bar>fst (snd (pts ! 50))\<bar> \<le> 63 / 2 ^ 53"
  proof -
    from a obtain pts where
      p: "buildOrbitTrace ref_math failing_library earth_catalog earth_window 5000 2 ''Pluto'' =
        Inr pts" "length pts = 101" and
      q: "\<forall>i<101. pts ! i =
         (mul_d (mul_d spatialScale 2)
            (Math_cos ref_math (div_d (mul_d (mul_d 2 (Math_PI ref_math)) (of_nat i)) 100)),
          mul_d (mul_d spatialScale 2)
            (Math_sin ref_math (div_d (mul_d (mul_d 2 (Math_PI ref_math)) (of_nat i)) 100)), 0)" and
      r: "\<forall>i<101. \<forall>\<epsilon> d.
            (\<forall>t. \<bar>Math_cos ref_math t - cos t\<bar> \<le> \<epsilon> \<and> \<bar>Math_sin ref_math t - sin t\<bar> \<le> \<epsilon>) \<and>
            \<bar>Math_PI ref_math\<bar> \<le> 4 \<and> \<bar>Math_PI ref_math - pi\<bar> \<le> d \<longrightarrow>
            \<bar>fst (pts ! i) - mul_d spatialScale 2 * cos (2 * pi * of_nat i / 100)\<bar>
              \<le> \<bar>mul_d spatialScale 2\<bar> * (\<epsilon> + (1 + \<epsilon>) / 2 ^ 53 + 56 / 2 ^ 53 + 2 * d) \<and>
            \<bar>fst (snd (pts ! i)) - mul_d spatialScale 2 * sin (2 * pi * of_nat i / 100)\<bar>
              \<le> \<bar>mul_d spatialScale 2\<bar> * (\<epsilon> + (1 + \<epsilon>) / 2 ^ 53 + 56 / 2 ^ 53 + 2 * d)"
      by blast
    from q [rule_format, OF n0] have p0: "pts ! 0 = (1, 0, 0)"
      by (simp add: ref_radius_2 ref_math_sel d_zero fl_1 fl_0)
         (simp add: mul_d_def fl_1)
    from q [rule_format, OF n50] have z: "snd (snd (pts ! 50)) = 0" by simp
    have "(1 / 2 ^ 53 + (1 + 1 / 2 ^ 53) / 2 ^ 53 + 56 / 2 ^ 53 + 2 * (1 / 2 ^ 52) :: real)
        \<le> 63 / 2 ^ 53"
      by simp
    with r [rule_format, OF n50 ref_accuracy] have
      "\<bar>fst (pts ! 50) + 1\<bar> \<le> 63 / 2 ^ 53 \<and> \<bar>fst (snd (pts ! 50))\<bar> \<le> 63 / 2 ^ 53"
      unfolding ref_radius_2 by simp
    with p p0 z show ?thesis by blast
  qed
  have C: "mul_d spatialScale 2 = spatialScale * 2"
  proof -
    from a have "fl 2 = 2 \<longrightarrow> mul_d spatialScale 2 = spatialScale * 2" by blast
    moreover have "fl 2 = (2::real)" using fl_numeral [of "Num.Bit0 Num.One"] by simp
    ultimately show ?thesis by blast
  qed
  from A C show ?thesis by blast
qed

text \<open>
  Claim C5 as stated fails: for the reference radius 2 the first point of the fallback trace
  is \<open>(1, 0, 0)\<close>, which is not on the circle of radius 2.
\<close>

theorem fallback_trace_radius_counterexample:
  "map_sum id hd
     (buildOrbitTrace ref_math failing_library earth_catalog earth_window 5000 2 ''Pluto'') =
     Inr (1, 0, 0) \<and>
   \<not> onCircle 2 (1, 0, 0)"
  by (simp add: buildOrbitTrace_None pluto_lookup hd_last_map_upt ref_first_point onCircle_def
      del: upt_Suc)

lemma mars_sample:
  "sampleDate ref_math stub_library mars_entry 2524608000000 i =
     newDate (add_d 2524608000000 (mul_d (div_d (mul_d
        (mul_d (mul_d 2 (884279719003555 / 281474976710656))
           (fl (sqrt (div_d (fl ((1047185097 / 4) ^ 3)) 132700000000))))
        (of_nat i)) 100) 1000))"
  by (simp add: mars_axis ref_math_sel)

lemma mars_sample_after:
  "2524608000000 <
     newDate (add_d 2524608000000 (mul_d (div_d (mul_d
        (mul_d (mul_d 2 (884279719003555 / 281474976710656))
           (fl (sqrt (div_d (fl ((1047185097 / 4) ^ 3)) 132700000000))))
        33) 100) 1000))"
proof -
  from sample_after_start [OF ref_period_ge [of "1047185097 / 4"], of 33 2524608000000]
  show ?thesis by (simp add: ref_math_sel)
qed

text \<open>
  Claim C6. For a name with a catalog entry \<open>e\<close> and a start date \<open>wall\<close>, the reading of the
  system clock: \<open>JD\<close> is the Julian date the library gives for the UTC fields of the start
  date; \<open>a_km\<close> is the semi-major axis the library gives for the epoch \<open>JD\<close>, from the entry's
  axis and drift converted to kilometres; \<open>T_s\<close> is the period \<open>2\<pi> \<surd>(a\<^sup>3 / \<mu>)\<close> with the Sun's
  gravitational parameter; sample \<open>i\<close>, from 0 to 100, is at the start date plus \<open>i T_s / 100\<close>
  seconds. Every operation is the rounded one of doubles, in the order the code has them, and
  the date is in whole milliseconds, truncated. When the sampler returns, the trace has 101
  points and point \<open>i\<close> is the scaled result of the propagator at sample \<open>i\<close>; it returns
  when all these calls return.
\<close>

theorem catalog_trace_samples_one_period:
  assumes "catalog (toLowerCase nm) = Some e"
  shows "let JD = getJdFromDateTime sp
                    (getJ0FromDatevec sp (getUTCFullYear wall) (getUTCMonth wall + 1)
                       (getUTCDate wall))
                    (getUtFromTimevec sp (getUTCHours wall) (getUTCMinutes wall)
                       (add_d (of_int (getUTCSeconds wall))
                          (mul_d (of_int (getUTCMilliseconds wall)) (fl (1 / 1000)))));
             a_km = getCurrentElements sp (mul_d (a_au e) 149597871)
                      (mul_d (da_au e) 149597871) (getJulianCenturies sp JD);
             T_s = mul_d (mul_d 2 (Math_PI jm))
                     (Math_sqrt jm (div_d (Math_pow jm a_km 3) 132700000000));
             t = (\<lambda>i. newDate (add_d (of_int wall)
                                (mul_d (div_d (mul_d T_s (of_nat i)) 100) 1000)))
         in (\<forall>pts i. buildOrbitTrace jm sp catalog w wall radius nm = Inr pts \<and> i \<le> 100 \<longrightarrow>
               length pts = 101 \<and>
               (\<exists>r v. getRvFromElementsDatetime sp e (t i) = Inr (r, v) \<and>
                      pts ! i = scaled r)) \<and>
            ((\<forall>i \<le> 100. \<exists>rv. getRvFromElementsDatetime sp e (t i) = Inr rv) \<longrightarrow>
               (\<exists>pts. buildOrbitTrace jm sp catalog w wall radius nm = Inr pts))"
  unfolding Let_def
proof (intro conjI allI impI)
  fix pts and i :: nat
  assume a: "buildOrbitTrace jm sp catalog w wall radius nm = Inr pts \<and> i \<le> 100"
  note n = buildOrbitTrace_Some_nth [where catalog = catalog and nm = nm,
      OF assms conjunct1 [OF a] conjunct2 [OF a]]
  from n show "length pts = 101" by blast
  from n show "\<exists>r v. getRvFromElementsDatetime sp e (sampleDate jm sp e wall i) = Inr (r, v) \<and>
      pts ! i = scaled r"
    by blast
next
  let ?T = "period_s jm sp e wall"
  assume ok: "\<forall>i \<le> 100. \<exists>rv. getRvFromElementsDatetime sp e (sampleDate jm sp e wall i) = Inr rv"
  have "\<exists>pt. catalogPoint sp e wall ?T 100 i = Inr pt" if "i \<in> set [0..<101]" for i
  proof -
    from that have "i \<le> 100" by simp
    with ok obtain rv where
      "getRvFromElementsDatetime sp e (sampleDate jm sp e wall i) = Inr rv" by blast
    then show ?thesis
      by (cases rv) (simp add: catalogPoint_Inr del: scaled.simps)
  qed
  from pushPoints_total [of "[0..<101]" "catalogPoint sp e wall ?T 100", OF this]
  show "\<exists>pts. buildOrbitTrace jm sp catalog w wall radius nm = Inr pts"
    by (simp only: buildOrbitTrace_Some assms)
qed

theorem catalog_trace_samples_one_period_witness:
  "\<exists>pts t33.
     buildOrbitTrace ref_math stub_library mars_catalog earth_window 2524608000000 2 ''Mars'' =
       Inr pts \<and>
     length pts = 101 \<and>
     t33 = newDate (add_d 2524608000000 (mul_d (div_d (mul_d
        (mul_d (mul_d 2 (884279719003555 / 281474976710656))
           (fl (sqrt (div_d (fl ((1047185097 / 4) ^ 3)) 132700000000))))
        33) 100) 1000)) \<and>
     2524608000000 < t33 \<and> pts ! 33 = scaled (of_int t33, 0, 0)"
proof -
  note t = catalog_trace_samples_one_period [where catalog = mars_catalog and
      nm = "''Mars''" and jm = ref_math and sp = stub_library and wall = 2524608000000 and
      w = earth_window and radius = 2, OF mars_lookup, unfolded Let_def]
  have "\<exists>pts. buildOrbitTrace ref_math stub_library mars_catalog earth_window 2524608000000 2
      ''Mars'' = Inr pts"
    using conjunct2 [OF t] by (simp add: stub_library_sel stub_propagator_def)
  then obtain pts where
    b: "buildOrbitTrace ref_math stub_library mars_catalog earth_window 2524608000000 2
      ''Mars'' = Inr pts"
    by blast
  have "(33::nat) \<le> 100" by simp
  with conjunct1 [OF t] b have
    n: "length pts = 101 \<and>
      (\<exists>r v. getRvFromElementsDatetime stub_library mars_entry
         (sampleDate ref_math stub_library mars_entry 2524608000000 33) = Inr (r, v) \<and>
        pts ! 33 = scaled r)"
    by blast
  then have "pts ! 33 =
      scaled (of_int (sampleDate ref_math stub_library mars_entry 2524608000000 33), 0, 0)"
    by (auto simp add: stub_library_sel stub_propagator_def simp del: scaled.simps)
  then have "pts ! 33 = scaled (of_int (newDate (add_d 2524608000000 (mul_d (div_d (mul_d
        (mul_d (mul_d 2 (884279719003555 / 281474976710656))
           (fl (sqrt (div_d (fl ((1047185097 / 4) ^ 3)) 132700000000))))
        33) 100) 1000))), 0, 0)"
    using mars_sample [of 33] by (simp del: scaled.simps)
  with b n mars_sample_after show ?thesis by blast
qed

lemma earth_trace_first:
  "map_sum id hd (buildOrbitTrace jm stub_library earth_catalog w 5000 radius ''Earth'') =
     Inr (2500, 0, 0)"
  unfolding earth_trace
  by (simp add: hd_last_map_upt d_zero newDate_numeral spatialScale_def del: upt_Suc)

text \<open>
  Claim C7, as amended. The sampler does not read the simulation clock. It takes its own
  reading of the system clock when it is called, and anchors the sampling there: the trace is
  the same whatever the application state is, and on the catalog path its first point is the
  scaled output of the propagator at that reading.
\<close>

theorem orbit_trace_anchored_at_wall_clock:
  "buildOrbitTrace jm sp catalog w wall radius nm =
     buildOrbitTrace jm sp catalog w' wall radius nm \<and>
   (\<forall>e pts. catalog (toLowerCase nm) = Some e \<and>
        buildOrbitTrace jm sp catalog w wall radius nm = Inr pts \<longrightarrow>
      (\<exists>r v. getRvFromElementsDatetime sp e wall = Inr (r, v) \<and> hd pts = scaled r))"
proof (intro conjI allI impI)
  show "buildOrbitTrace jm sp catalog w wall radius nm =
      buildOrbitTrace jm sp catalog w' wall radius nm"
    by (simp add: buildOrbitTrace_def)
next
  fix e pts
  assume a: "catalog (toLowerCase nm) = Some e \<and>
    buildOrbitTrace jm sp catalog w wall radius nm = Inr pts"
  have "(0::nat) \<le> 100" by simp
  from buildOrbitTrace_Some_nth [where catalog = catalog and nm = nm,
      OF conjunct1 [OF a] conjunct2 [OF a] this]
  obtain r v where len: "length pts = 101" and
    rv: "getRvFromElementsDatetime sp e wall = Inr (r, v)" and p: "pts ! 0 = scaled r"
    unfolding sampleDate_0 by blast
  from len have "pts \<noteq> []" by auto
  then have "hd pts = pts ! 0" by (simp add: hd_conv_nth)
  with p have "hd pts = scaled r" by simp
  with rv show "\<exists>r v. getRvFromElementsDatetime sp e wall = Inr (r, v) \<and> hd pts = scaled r"
    by blast
qed

theorem orbit_trace_anchored_at_wall_clock_witness:
  "buildOrbitTrace ref_math stub_library earth_catalog earth_window 5000 2 ''Earth'' =
     buildOrbitTrace ref_math stub_library earth_catalog (earth_window\<lparr>clock := 7000\<rparr>) 5000 2
       ''Earth'' \<and>
   map_sum id hd
     (buildOrbitTrace ref_math stub_library earth_catalog earth_window 5000 2 ''Earth'') =
     Inr (scaled (5000, 0, 0))"
proof -
  note t = orbit_trace_anchored_at_wall_clock [of ref_math stub_library earth_catalog
      earth_window 5000 2 "''Earth''" "earth_window\<lparr>clock := 7000\<rparr>"]
  obtain pts where
    b: "buildOrbitTrace ref_math stub_library earth_catalog earth_window 5000 2 ''Earth'' =
      Inr pts"
    using earth_trace by blast
  from conjunct2 [OF t] b earth_lookup(1) have
    "\<exists>r v. getRvFromElementsDatetime stub_library earth_entry 5000 = Inr (r, v) \<and>
       hd pts = scaled r"
    by blast
  then have "hd pts = scaled (5000, 0, 0)"
    by (auto simp add: stub_library_sel stub_propagator_def simp del: scaled.simps)
  with b conjunct1 [OF t] show ?thesis by (simp del: scaled.simps)
qed

text \<open>
  Claim C7 as stated fails: with the simulation clock at 2000 ms and the system clock at
  5000 ms, the trace of the Earth starts at the propagator's position for 5000 ms, scaled,
  not at the one for the simulation clock.
\<close>

theorem orbit_trace_ignores_clock_counterexample:
  "clock earth_window = 2000 \<and>
   map_sum id (scaled \<circ> fst)
     (getRvFromElementsDatetime stub_library earth_entry (clock earth_window)) =
     Inr (1000, 0, 0) \<and>
   map_sum id hd
     (buildOrbitTrace ref_math stub_library earth_catalog earth_window 5000 2 ''Earth'') =
     Inr (2500, 0, 0)"
proof -
  have c: "clock earth_window = 2000" by (simp add: earth_window_def)
  show ?thesis
    by (simp add: c earth_trace_first stub_library_sel stub_propagator_def spatialScale_def)
qed

section \<open>Bodies without a catalog entry\<close>

lemma planet_names_image:
  "name ` set planets =
     {''Mercury'', ''Venus'', ''Earth'', ''Mars'', ''Jupiter'', ''Saturn'', ''Uranus'', ''Neptune''}"
  using planet_names by simp

lemma updatePlanet_missing:
  "catalog (toLowerCase (name p)) = None \<Longrightarrow> updatePlanet sp catalog now p sc = Inr sc"
  by (simp add: updatePlanet_def split: option.splits)

text \<open>
  Claim C8. For a name without a catalog entry, whatever the propagator does (it is not
  called): building the orbit trace returns the circular placeholder; the update of the body
  in a frame returns with the scene as it was, and the loop goes on with the remaining
  bodies; a frame in which no tracked body has an entry completes and leaves the scene as it
  was.
\<close>

theorem missing_catalog_entry_never_fails:
  "(catalog (toLowerCase nm) = None \<longrightarrow>
      buildOrbitTrace jm sp catalog w wall radius nm =
        Inr (map (fallbackPoint jm radius 100) [0..<101])) \<and>
   (catalog (toLowerCase (name p)) = None \<longrightarrow>
      updatePlanet sp catalog now p sc = Inr sc \<and>
      forEachPlanet sp catalog now (p # ps) sc = forEachPlanet sp catalog now ps sc) \<and>
   ((\<forall>q \<in> set planets. catalog (toLowerCase (name q)) = None) \<longrightarrow>
      (\<exists>w'. animate sp catalog wall hits w = Inr w' \<and> scene w' = scene w))"
proof (intro conjI impI)
  assume "catalog (toLowerCase nm) = None"
  then show "buildOrbitTrace jm sp catalog w wall radius nm =
      Inr (map (fallbackPoint jm radius 100) [0..<101])"
    by (simp only: buildOrbitTrace_None)
next
  assume "catalog (toLowerCase (name p)) = None"
  then show "updatePlanet sp catalog now p sc = Inr sc"
    by (simp only: updatePlanet_missing)
next
  assume "catalog (toLowerCase (name p)) = None"
  then show "forEachPlanet sp catalog now (p # ps) sc = forEachPlanet sp catalog now ps sc"
    by (simp add: updatePlanet_missing)
next
  assume a: "\<forall>q \<in> set planets. catalog (toLowerCase (name q)) = None"
  have "forEachPlanet sp catalog (clock w) planets (scene w) = Inr (scene w)"
    by (rule forEachPlanet_fixed) (simp add: a updatePlanet_missing)
  then show "\<exists>w'. animate sp catalog wall hits w = Inr w' \<and> scene w' = scene w"
    by (simp add: animate_Inr foldl_processCollision_keeps)
qed

theorem missing_catalog_entry_never_fails_witness:
  "buildOrbitTrace ref_math failing_library earth_catalog earth_window 5000 2 ''Pluto'' =
     Inr (map (fallbackPoint ref_math 2 100) [0..<101]) \<and>
   updatePlanet failing_library earth_catalog 2000 (planets ! 3) (earth_scene 7) =
     Inr (earth_scene 7) \<and>
   (\<exists>w'. animate failing_library Map.empty 3000 [] earth_window = Inr w' \<and>
      scene w' = scene earth_window)"
proof -
  have mars: "earth_catalog (toLowerCase (name (planets ! 3))) = None"
    by (simp add: planets_def earth_catalog_def lower_names)
  note a = missing_catalog_entry_never_fails [where catalog = earth_catalog and
      nm = "''Pluto''" and sp = failing_library and w = earth_window and wall = 5000 and
      radius = 2 and p = "planets ! 3" and now = 2000 and sc = "earth_scene 7" and
      jm = ref_math]
  note b = missing_catalog_entry_never_fails [where catalog = Map.empty and
      sp = failing_library and w = earth_window and wall = 3000 and hits = "[]"]
  have "buildOrbitTrace ref_math failing_library earth_catalog earth_window 5000 2 ''Pluto'' =
     Inr (map (fallbackPoint ref_math 2 100) [0..<101])"
    using conjunct1 [OF a] pluto_lookup by blast
  moreover have "updatePlanet failing_library earth_catalog 2000 (planets ! 3) (earth_scene 7) =
     Inr (earth_scene 7)"
    using conjunct1 [OF conjunct2 [OF a]] mars by blast
  moreover have "\<exists>w'. animate failing_library Map.empty 3000 [] earth_window = Inr w' \<and>
      scene w' = scene earth_window"
    using conjunct2 [OF conjunct2 [OF b]] by blast
  ultimately show ?thesis by blast
qed

section \<open>Opening the dialog\<close>

text \<open>
  Claim C10. A collision changes nothing, so opens no dialog, unless the mouse button is down
  and the name of the object hit is non-empty and one of the eight planet names; a hit on
  the Sun or on an unnamed object such as an orbit line never does. A frame in which the
  button is up, or in which none of the objects hit bears a planet name, leaves the dialog as
  it was, and a pointer move leaves both the button state and the dialog as they were.
\<close>

theorem dialog_opens_only_on_planet_press:
  "(\<not> (is_mouse_down w \<and> nm \<noteq> '''' \<and>
        nm \<in> {''Mercury'', ''Venus'', ''Earth'', ''Mars'', ''Jupiter'', ''Saturn'', ''Uranus'',
              ''Neptune''}) \<longrightarrow>
      processCollision w nm = w) \<and>
   processCollision w ''Sun'' = w \<and> processCollision w '''' = w \<and>
   (\<forall>w'. animate sp catalog wall hits w = Inr w' \<and>
        (\<not> is_mouse_down w \<or> set hits \<inter> set (map name planets) = {}) \<longrightarrow>
      dialogHTML w' = dialogHTML w \<and> dialogDisplay w' = dialogDisplay w) \<and>
   is_mouse_down (onPointerMove cx cy iw ih w) = is_mouse_down w \<and>
   dialogHTML (onPointerMove cx cy iw ih w) = dialogHTML w \<and>
   dialogDisplay (onPointerMove cx cy iw ih w) = dialogDisplay w \<and>
   length planets = 8"
proof (intro conjI allI impI)
  assume "\<not> (is_mouse_down w \<and> nm \<noteq> '''' \<and>
        nm \<in> {''Mercury'', ''Venus'', ''Earth'', ''Mars'', ''Jupiter'', ''Saturn'', ''Uranus'',
              ''Neptune''})"
  then show "processCollision w nm = w"
    unfolding planet_names [symmetric] by (auto simp: processCollision_def Let_def)
next
  show "processCollision w ''Sun'' = w"
    by (simp add: processCollision_def planet_names_image)
next
  show "processCollision w '''' = w"
    by (simp add: processCollision_def)
next
  fix w'
  assume a: "animate sp catalog wall hits w = Inr w' \<and>
    (\<not> is_mouse_down w \<or> set hits \<inter> set (map name planets) = {})"
  from conjunct1 [OF a] obtain sc where
    w': "w' = (if isPaused w then foldl processCollision (w\<lparr>scene := sc\<rparr>) hits
               else (foldl processCollision (w\<lparr>scene := sc\<rparr>) hits)\<lparr>clock := wall\<rparr>)"
    by (auto simp: animate_Inr)
  have "foldl processCollision (w\<lparr>scene := sc\<rparr>) hits = w\<lparr>scene := sc\<rparr>"
    using conjunct2 [OF a] by (intro foldl_processCollision_noop) simp
  with w' show "dialogHTML w' = dialogHTML w" "dialogDisplay w' = dialogDisplay w"
    by simp_all
next
  show "is_mouse_down (onPointerMove cx cy iw ih w) = is_mouse_down w"
    "dialogHTML (onPointerMove cx cy iw ih w) = dialogHTML w"
    "dialogDisplay (onPointerMove cx cy iw ih w) = dialogDisplay w"
    by (simp_all add: onPointerMove_def)
next
  show "length planets = 8" by (simp add: planets_def)
qed

lemma animate_earth_hover:
  "animate stub_library earth_catalog 3000 [''Earth''] earth_window =
     Inr (earth_window\<lparr>scene := earth_scene 1000, clock := 3000\<rparr>)"
  by (simp add: animate_def earth_window_def forEach_earth processCollision_def)

theorem dialog_opens_only_on_planet_press_witness:
  "\<not> is_mouse_down earth_window \<and>
   processCollision earth_window ''Earth'' = earth_window \<and>
   dialogDisplay (earth_window\<lparr>scene := earth_scene 1000, clock := 3000\<rparr>) = ''none'' \<and>
   processCollision (onMouseDown earth_window) ''Earth'' =
     onMouseDown earth_window\<lparr>dialogHTML := ''<h2>Earth</h2>'', dialogDisplay := ''block''\<rparr>"
proof -
  note t = dialog_opens_only_on_planet_press [of earth_window "''Earth''" stub_library
      earth_catalog 3000 "[''Earth'']"]
  have m: "\<not> is_mouse_down earth_window" by (simp add: earth_window_def)
  have "processCollision earth_window ''Earth'' = earth_window"
    using conjunct1 [OF t] m by blast
  moreover have "dialogDisplay (earth_window\<lparr>scene := earth_scene 1000, clock := 3000\<rparr>) =
      dialogDisplay earth_window"
    using conjunct1 [OF conjunct2 [OF conjunct2 [OF conjunct2 [OF t]]]] animate_earth_hover m
    by blast
  moreover have "dialogDisplay earth_window = ''none''" by (simp add: earth_window_def)
  moreover have "processCollision (onMouseDown earth_window) ''Earth'' =
     onMouseDown earth_window\<lparr>dialogHTML := ''<h2>Earth</h2>'', dialogDisplay := ''block''\<rparr>"
    by (simp add: processCollision_def onMouseDown_def openDialog_def planet_names_image
        lower_names earth_window_def)
  ultimately show ?thesis using m by simp
qed

end
